theory Spec2Isabelle
  imports Main
begin

section \<open>The bootstrap of the combined master and volume server (go/weed/server.go)\<close>

text \<open>
  The theory embeds \<open>runServer\<close> of \<open>go/weed/server.go\<close>: the command-line flags are a
  record of the values behind the flag pointers, the function body is a transition system
  over three threads of control (the caller of \<open>runServer\<close>, the goroutine started at line
  105 and the goroutine started at line 120), and the calls to collaborators outside the
  file (\<open>runtime\<close>, \<open>mux\<close>, \<open>weed_server\<close>, \<open>util\<close>, \<open>net/http\<close>) are events appended
  to a trace in the order in which they are made.
\<close>

subsection \<open>Library functions of Go used by the file\<close>

text \<open>
  \<open>strings.Split(s, ",")\<close>: the substrings between the separators; the file only ever
  splits on the one-byte separator \<open>","\<close>. An empty string yields one empty field.
\<close>

fun Split :: "string \<Rightarrow> char \<Rightarrow> string list" where
  "Split [] sep = [[]]"
| "Split (c # cs) sep =
     (if c = sep then [] # Split cs sep
      else (case Split cs sep of
              [] \<Rightarrow> [[c]]
            | w # ws \<Rightarrow> (c # w) # ws))"

text \<open>
  \<open>strconv.Atoi(s)\<close> is \<open>ParseInt(s, 10, 0)\<close>: an optional sign, then at least one
  decimal digit and nothing else. \<open>int\<close> is taken to be 64 bits wide.
  A digit is a byte from \<open>'0'\<close> (48) to \<open>'9'\<close> (57), its value the byte minus 48.

  \<open>ParseUint\<close> reads the digits from the left into an unsigned 64-bit accumulator and
  stops at the first byte it cannot take: a byte that is no digit is a syntax error
  (value 0); a digit that would take the accumulator beyond \<open>maxUint64\<close> (the
  multiplication by ten, or the addition of the digit) is a range error (value
  \<open>maxUint64\<close>), whatever follows it. \<open>ParseInt\<close> gives a syntax error back as it is; it
  turns a magnitude outside the range of \<open>int\<close> into a range error with the nearest
  bound as value.
\<close>

datatype num_error = ErrSyntax | ErrRange

definition IntSize :: nat where
  "IntSize = 64"

definition maxUint64 :: nat where
  "maxUint64 = 2 ^ 64 - 1"

definition digit_val :: "char \<Rightarrow> nat option" where
  "digit_val c =
     (let v = (of_char c :: nat)
      in if 48 \<le> v \<and> v \<le> 57 then Some (v - 48) else None)"

fun digits_from :: "nat \<Rightarrow> string \<Rightarrow> nat \<times> num_error option" where
  "digits_from n [] = (n, None)"
| "digits_from n (c # cs) =
     (case digit_val c of
        None \<Rightarrow> (0, Some ErrSyntax)
      | Some d \<Rightarrow>
          if n \<ge> maxUint64 div 10 + 1 then (maxUint64, Some ErrRange)
          else if n * 10 + d > maxUint64 \<or> n * 10 + d > 2 ^ IntSize - 1
          then (maxUint64, Some ErrRange)
          else digits_from (n * 10 + d) cs)"

definition ParseUint :: "string \<Rightarrow> nat \<times> num_error option" where
  "ParseUint s = (if s = [] then (0, Some ErrSyntax) else digits_from 0 s)"

definition Atoi :: "string \<Rightarrow> int \<times> num_error option" where
  "Atoi s =
     (if s = [] then (0, Some ErrSyntax)
      else
        let neg = (hd s = CHR ''-'');
            s1 = (if hd s = CHR ''+'' \<or> hd s = CHR ''-'' then tl s else s);
            cutoff = (2::nat) ^ (IntSize - 1)
        in case ParseUint s1 of
             (un, err) \<Rightarrow>
               if err = Some ErrSyntax then (0, Some ErrSyntax)
               else if \<not> neg \<and> un \<ge> cutoff then (int cutoff - 1, Some ErrRange)
               else if neg \<and> un > cutoff then (- int cutoff, Some ErrRange)
               else (if neg then - int un else int un, None))"

text \<open>\<open>strconv.Itoa(i)\<close>: the decimal digits of \<open>i\<close>, after a minus sign when negative.\<close>

definition digit_char :: "nat \<Rightarrow> char" where
  "digit_char d = ''0123456789'' ! d"

fun nat_digits :: "nat \<Rightarrow> string" where
  "nat_digits n =
     (if n < 10 then [digit_char n]
      else nat_digits (n div 10) @ [digit_char (n mod 10)])"

declare nat_digits.simps [simp del]

definition Itoa :: "int \<Rightarrow> string" where
  "Itoa i = (if i < 0 then CHR ''-'' # nat_digits (nat (- i)) else nat_digits (nat i))"

subsection \<open>Flags and environment\<close>

text \<open>
  The package-level flag variables of lines 39 to 55: each field holds the value behind
  the flag pointer of the same name. \<open>garbageThreshold\<close> and \<open>VERSION\<close> are
  package-level values declared in other files of the package and only read here; they
  are carried as fields.
\<close>

record flags =
  serverIp :: string
  serverMaxCpu :: int
  serverTimeout :: int
  serverDataCenter :: string
  serverRack :: string
  serverWhiteListOption :: string
  serverPeers :: string
  masterPort :: int
  masterMetaFolder :: string
  masterVolumeSizeLimitMB :: nat
  masterConfFile :: string
  masterDefaultReplicaPlacement :: string
  volumePort :: int
  volumePublicUrl :: string
  volumeDataFolders :: string
  volumeMaxDataVolumeCounts :: string
  volumePulse :: int
  garbageThreshold :: string
  VERSION :: string

text \<open>
  The flag defaults of lines 39 to 55. The default of \<open>-dir\<close> is \<open>os.TempDir()\<close>,
  a value of the environment, hence the parameter.
\<close>

definition default_flags :: "string \<Rightarrow> string \<Rightarrow> string \<Rightarrow> flags" where
  "default_flags tempDir gt ver =
     \<lparr> serverIp = ''localhost'',
       serverMaxCpu = 0,
       serverTimeout = 10,
       serverDataCenter = '''',
       serverRack = '''',
       serverWhiteListOption = '''',
       serverPeers = '''',
       masterPort = 9333,
       masterMetaFolder = '''',
       masterVolumeSizeLimitMB = 30 * 1000,
       masterConfFile = ''/etc/weedfs/weedfs.conf'',
       masterDefaultReplicaPlacement = ''000'',
       volumePort = 8080,
       volumePublicUrl = '''',
       volumeDataFolders = tempDir,
       volumeMaxDataVolumeCounts = ''7'',
       volumePulse = 5,
       garbageThreshold = gt,
       VERSION = ver \<rparr>"

datatype tid = Main | Master | Raft

text \<open>
  What the machine and the operating system answer: the number of CPUs, whether
  \<open>util.TestFolderWritable\<close> returns no error for a path, the error (if any) of
  \<open>util.NewListener\<close> for an address as called by a thread, and the error (if any) with
  which \<open>http.Serve\<close> called by a thread returns; without one it serves forever.
\<close>

record env =
  NumCPU :: int
  folderWritable :: "string \<Rightarrow> bool"
  listenError :: "tid \<Rightarrow> string \<Rightarrow> string option"
  serveError :: "tid \<Rightarrow> string option"

subsection \<open>Events, fatal exits and the state of the process\<close>

text \<open>
  \<open>MuxRouter\<close> is the \<open>r\<close> of line 106 (\<open>mux.NewRouter()\<close>), \<open>ServeMux\<close> the \<open>r\<close> of
  line 140 (\<open>http.NewServeMux()\<close>); \<open>ms_Topo\<close> is the field \<open>ms.Topo\<close> of the master
  server of line 107.
\<close>

datatype router = MuxRouter | ServeMux

datatype listener = masterListener | volumeListener

datatype topology = ms_Topo

text \<open>The arguments of \<open>weed_server.NewMasterServer\<close>, lines 107 to 109, in order.\<close>

record master_args =
  ms_r :: router
  ms_version :: string
  ms_port :: int
  ms_metaFolder :: string
  ms_volumeSizeLimitMB :: nat
  ms_pulseSeconds :: int
  ms_confFile :: string
  ms_defaultReplicaPlacement :: string
  ms_garbageThreshold :: string
  ms_whiteList :: "string list"

text \<open>The arguments of \<open>weed_server.NewRaftServer\<close>, line 127, in order.\<close>

record raft_args =
  rs_r :: router
  rs_version :: string
  rs_peers :: "string list"
  rs_httpAddr :: string
  rs_dataDir :: string
  rs_topo :: topology
  rs_pulseSeconds :: int

text \<open>The arguments of \<open>weed_server.NewVolumeServer\<close>, lines 141 to 143, in order.\<close>

record volume_args =
  vs_r :: router
  vs_version :: string
  vs_ip :: string
  vs_port :: int
  vs_publicUrl :: string
  vs_folders :: "string list"
  vs_maxCounts :: "int list"
  vs_masterNode :: string
  vs_pulseSeconds :: int
  vs_dataCenter :: string
  vs_rack :: string
  vs_whiteList :: "string list"

text \<open>
  The calls the function makes to its collaborators. \<open>NewListener l addr t\<close> is a call
  of \<open>util.NewListener\<close> that returned no error, for the address and the idle timeout
  \<open>t\<close> (a \<open>time.Duration\<close>, in nanoseconds), its result assigned to \<open>l\<close>;
  \<open>Serve l r\<close> is the call of \<open>http.Serve\<close>;
  \<open>Sleep n\<close> is \<open>time.Sleep\<close> of \<open>n\<close> milliseconds. Log lines are not events.
\<close>

datatype event =
    GOMAXPROCS int
  | NewRouter
  | NewMasterServer master_args
  | NewListener listener string int
  | Sleep nat
  | NewRaftServer raft_args
  | SetRaftServer
  | NewServeMux
  | NewVolumeServer volume_args
  | Serve listener router

text \<open>
  The ways the process ends: the \<open>glog.Fatalf\<close> calls of lines 70, 80, 84, 88, 117, 134,
  151 and 154, with what they print, and the panic of \<open>sync.WaitGroup\<close> on a negative
  counter.
\<close>

datatype fatal =
    Fatal_MetaFolder string
  | Fatal_MaxNotNumber int
  | Fatal_DirMaxMismatch nat nat
  | Fatal_DataFolder string
  | Fatal_MasterListen string
  | Fatal_MasterServe string
  | Fatal_VolumeListen string
  | Fatal_VolumeServe string
  | Panic_WaitGroup

text \<open>
  The position of each thread: the statement it executes next. \<open>Main\<close> is the caller of
  \<open>runServer\<close>, \<open>Master\<close> the goroutine of lines 105 to 136, \<open>Raft\<close> the goroutine of
  lines 120 to 130.
\<close>

datatype main_pc =
    M_maxCpu | M_metaFolder | M_split | M_parseMax | M_checkLen | M_checkFolders
  | M_publicUrl | M_whiteList | M_waitGroups | M_goMaster | M_volumeWait | M_sleep
  | M_newServeMux | M_newVolumeServer | M_listen | M_serve | M_serving

datatype master_pc =
    G_notStarted | G_newRouter | G_newMasterServer | G_listen | G_goRaft | G_done
  | G_serve | G_serving

datatype raft_pc =
    R_notStarted | R_wait | R_sleep | R_peers | R_newRaftServer | R_setRaftServer
  | R_done | R_finished

record state =
  fl :: flags
  serverWhiteList :: "string list"
  folders :: "string list"
  maxCountStrings :: "string list"
  maxCounts :: "int list"
  peers :: "string list"
  raftWaitForMaster :: int
  volumeWait :: int
  main_pc :: main_pc
  master_pc :: master_pc
  raft_pc :: raft_pc
  trace :: "event list"
  exited :: "fatal option"

text \<open>
  The state in which \<open>runServer\<close> is entered: \<open>serverWhiteList\<close> (line 57) is nil, the
  wait groups have their zero value, no goroutine exists yet.
\<close>

definition init :: "flags \<Rightarrow> state" where
  "init f =
     \<lparr> fl = f, serverWhiteList = [], folders = [], maxCountStrings = [], maxCounts = [],
       peers = [], raftWaitForMaster = 0, volumeWait = 0,
       main_pc = M_maxCpu, master_pc = G_notStarted, raft_pc = R_notStarted,
       trace = [], exited = None \<rparr>"

subsection \<open>The statements of \<open>runServer\<close>\<close>

text \<open>Lines 61 to 63, 66 to 68 and 92 to 94: the defaults written back into the flags.\<close>

definition setMaxCpu :: "env \<Rightarrow> flags \<Rightarrow> flags" where
  "setMaxCpu e f = (if serverMaxCpu f < 1 then f\<lparr>serverMaxCpu := NumCPU e\<rparr> else f)"

definition setMetaFolder :: "flags \<Rightarrow> flags" where
  "setMetaFolder f =
     (if masterMetaFolder f = [] then f\<lparr>masterMetaFolder := volumeDataFolders f\<rparr> else f)"

text \<open>
  \<open>time.Duration(t) * time.Second\<close> (lines 114 and 148): a \<open>time.Duration\<close> is an \<open>int64\<close>
  count of nanoseconds, \<open>time.Second\<close> is 1000000000 of them, and the multiplication
  wraps around in 64 bits.
\<close>

definition int64 :: "int \<Rightarrow> int" where
  "int64 i = (i + 2 ^ 63) mod 2 ^ 64 - 2 ^ 63"

definition Seconds :: "int \<Rightarrow> int" where
  "Seconds t = int64 (int64 t * 1000000000)"

definition ipPort :: "string \<Rightarrow> int \<Rightarrow> string" where
  "ipPort ip port = ip @ '':'' @ Itoa port"

definition setPublicUrl :: "flags \<Rightarrow> flags" where
  "setPublicUrl f =
     (if volumePublicUrl f = []
      then f\<lparr>volumePublicUrl := ipPort (serverIp f) (volumePort f)\<rparr> else f)"

text \<open>
  The loop of lines 76 to 82: the counts parsed so far are \<open>acc\<close>; the first string that
  \<open>Atoi\<close> rejects ends the process, printing the number returned with the error.
\<close>

fun parseMaxCounts :: "string list \<Rightarrow> int list \<Rightarrow> fatal + int list" where
  "parseMaxCounts [] acc = Inr acc"
| "parseMaxCounts (maxString # rest) acc =
     (case Atoi maxString of
        (maxv, None) \<Rightarrow> parseMaxCounts rest (acc @ [maxv])
      | (maxv, Some err) \<Rightarrow> Inl (Fatal_MaxNotNumber maxv))"

text \<open>The loop of lines 86 to 90: the first folder that is not writable ends the process.\<close>

fun checkFolders :: "env \<Rightarrow> string list \<Rightarrow> fatal option" where
  "checkFolders e [] = None"
| "checkFolders e (folder # rest) =
     (if folderWritable e folder then checkFolders e rest
      else Some (Fatal_DataFolder folder))"

definition Fatalf :: "fatal \<Rightarrow> state \<Rightarrow> state" where
  "Fatalf x s = s\<lparr>exited := Some x\<rparr>"

definition emit :: "event \<Rightarrow> state \<Rightarrow> state" where
  "emit ev s = s\<lparr>trace := trace s @ [ev]\<rparr>"

text \<open>
  The caller of \<open>runServer\<close>, one statement (or one block of the lines named) per step.
  \<open>None\<close> means that the thread cannot move: \<open>volumeWait.Wait()\<close> blocks while the
  counter is not zero, and \<open>http.Serve\<close> does not return unless with an error.
\<close>

definition main_step :: "env \<Rightarrow> state \<Rightarrow> state option" where
  "main_step e s =
     (case main_pc s of
        M_maxCpu \<Rightarrow> \<comment> \<open>lines 61 to 64\<close>
          (let f = setMaxCpu e (fl s)
           in Some (emit (GOMAXPROCS (serverMaxCpu f)) (s\<lparr>fl := f, main_pc := M_metaFolder\<rparr>)))
      | M_metaFolder \<Rightarrow> \<comment> \<open>lines 66 to 71\<close>
          (let f = setMetaFolder (fl s)
           in if folderWritable e (masterMetaFolder f)
              then Some (s\<lparr>fl := f, main_pc := M_split\<rparr>)
              else Some (Fatalf (Fatal_MetaFolder (masterMetaFolder f)) (s\<lparr>fl := f\<rparr>)))
      | M_split \<Rightarrow> \<comment> \<open>lines 73 and 74\<close>
          Some (s\<lparr>folders := Split (volumeDataFolders (fl s)) CHR '','',
                  maxCountStrings := Split (volumeMaxDataVolumeCounts (fl s)) CHR '','',
                  main_pc := M_parseMax\<rparr>)
      | M_parseMax \<Rightarrow> \<comment> \<open>lines 75 to 82\<close>
          (case parseMaxCounts (maxCountStrings s) [] of
             Inl x \<Rightarrow> Some (Fatalf x s)
           | Inr counts \<Rightarrow> Some (s\<lparr>maxCounts := counts, main_pc := M_checkLen\<rparr>))
      | M_checkLen \<Rightarrow> \<comment> \<open>lines 83 to 85\<close>
          (if length (folders s) \<noteq> length (maxCounts s)
           then Some (Fatalf (Fatal_DirMaxMismatch (length (folders s)) (length (maxCounts s))) s)
           else Some (s\<lparr>main_pc := M_checkFolders\<rparr>))
      | M_checkFolders \<Rightarrow> \<comment> \<open>lines 86 to 90\<close>
          (case checkFolders e (folders s) of
             Some x \<Rightarrow> Some (Fatalf x s)
           | None \<Rightarrow> Some (s\<lparr>main_pc := M_publicUrl\<rparr>))
      | M_publicUrl \<Rightarrow> \<comment> \<open>lines 92 to 94\<close>
          Some (s\<lparr>fl := setPublicUrl (fl s), main_pc := M_whiteList\<rparr>)
      | M_whiteList \<Rightarrow> \<comment> \<open>lines 95 to 97\<close>
          (if serverWhiteListOption (fl s) \<noteq> []
           then Some (s\<lparr>serverWhiteList := Split (serverWhiteListOption (fl s)) CHR '','',
                         main_pc := M_waitGroups\<rparr>)
           else Some (s\<lparr>main_pc := M_waitGroups\<rparr>))
      | M_waitGroups \<Rightarrow> \<comment> \<open>lines 99 to 103\<close>
          Some (s\<lparr>raftWaitForMaster := raftWaitForMaster s + 1,
                  volumeWait := volumeWait s + 1, main_pc := M_goMaster\<rparr>)
      | M_goMaster \<Rightarrow> \<comment> \<open>the go statement of lines 105 to 136\<close>
          Some (s\<lparr>master_pc := G_newRouter, main_pc := M_volumeWait\<rparr>)
      | M_volumeWait \<Rightarrow> \<comment> \<open>line 138\<close>
          (if volumeWait s = 0 then Some (s\<lparr>main_pc := M_sleep\<rparr>) else None)
      | M_sleep \<Rightarrow> \<comment> \<open>line 139\<close>
          Some (emit (Sleep 100) (s\<lparr>main_pc := M_newServeMux\<rparr>))
      | M_newServeMux \<Rightarrow> \<comment> \<open>line 140\<close>
          Some (emit NewServeMux (s\<lparr>main_pc := M_newVolumeServer\<rparr>))
      | M_newVolumeServer \<Rightarrow> \<comment> \<open>lines 141 to 143\<close>
          Some (emit (NewVolumeServer
                  \<lparr> vs_r = ServeMux, vs_version = VERSION (fl s), vs_ip = serverIp (fl s),
                    vs_port = volumePort (fl s), vs_publicUrl = volumePublicUrl (fl s),
                    vs_folders = folders s, vs_maxCounts = maxCounts s,
                    vs_masterNode = ipPort (serverIp (fl s)) (masterPort (fl s)),
                    vs_pulseSeconds = volumePulse (fl s),
                    vs_dataCenter = serverDataCenter (fl s), vs_rack = serverRack (fl s),
                    vs_whiteList = serverWhiteList s \<rparr>)
                (s\<lparr>main_pc := M_listen\<rparr>))
      | M_listen \<Rightarrow> \<comment> \<open>lines 146 to 152\<close>
          (case listenError e Main (ipPort (serverIp (fl s)) (volumePort (fl s))) of
             Some msg \<Rightarrow> Some (Fatalf (Fatal_VolumeListen msg) s)
           | None \<Rightarrow>
               Some (emit (NewListener volumeListener
                             (ipPort (serverIp (fl s)) (volumePort (fl s)))
                             (Seconds (serverTimeout (fl s))))
                       (s\<lparr>main_pc := M_serve\<rparr>)))
      | M_serve \<Rightarrow> \<comment> \<open>line 153, the call\<close>
          Some (emit (Serve volumeListener ServeMux) (s\<lparr>main_pc := M_serving\<rparr>))
      | M_serving \<Rightarrow> \<comment> \<open>lines 153 to 155, the return with an error\<close>
          (case serveError e Main of
             Some msg \<Rightarrow> Some (Fatalf (Fatal_VolumeServe msg) s)
           | None \<Rightarrow> None))"

text \<open>
  \<open>wg.Done()\<close> is \<open>wg.Add(-1)\<close>, which panics when the counter becomes negative.
\<close>

definition wgDone :: "int \<Rightarrow> fatal + int" where
  "wgDone n = (if n - 1 < 0 then Inl Panic_WaitGroup else Inr (n - 1))"

text \<open>The goroutine of lines 105 to 136.\<close>

definition master_step :: "env \<Rightarrow> state \<Rightarrow> state option" where
  "master_step e s =
     (case master_pc s of
        G_notStarted \<Rightarrow> None
      | G_newRouter \<Rightarrow> \<comment> \<open>line 106\<close>
          Some (emit NewRouter (s\<lparr>master_pc := G_newMasterServer\<rparr>))
      | G_newMasterServer \<Rightarrow> \<comment> \<open>lines 107 to 109\<close>
          Some (emit (NewMasterServer
                  \<lparr> ms_r = MuxRouter, ms_version = VERSION (fl s), ms_port = masterPort (fl s),
                    ms_metaFolder = masterMetaFolder (fl s),
                    ms_volumeSizeLimitMB = masterVolumeSizeLimitMB (fl s),
                    ms_pulseSeconds = volumePulse (fl s), ms_confFile = masterConfFile (fl s),
                    ms_defaultReplicaPlacement = masterDefaultReplicaPlacement (fl s),
                    ms_garbageThreshold = garbageThreshold (fl s),
                    ms_whiteList = serverWhiteList s \<rparr>)
                (s\<lparr>master_pc := G_listen\<rparr>))
      | G_listen \<Rightarrow> \<comment> \<open>lines 112 to 118\<close>
          (case listenError e Master (ipPort (serverIp (fl s)) (masterPort (fl s))) of
             Some msg \<Rightarrow> Some (Fatalf (Fatal_MasterListen msg) s)
           | None \<Rightarrow>
               Some (emit (NewListener masterListener
                             (ipPort (serverIp (fl s)) (masterPort (fl s)))
                             (Seconds (serverTimeout (fl s))))
                       (s\<lparr>master_pc := G_goRaft\<rparr>)))
      | G_goRaft \<Rightarrow> \<comment> \<open>the go statement of lines 120 to 130\<close>
          Some (s\<lparr>raft_pc := R_wait, master_pc := G_done\<rparr>)
      | G_done \<Rightarrow> \<comment> \<open>line 132\<close>
          (case wgDone (raftWaitForMaster s) of
             Inl x \<Rightarrow> Some (Fatalf x s)
           | Inr n \<Rightarrow> Some (s\<lparr>raftWaitForMaster := n, master_pc := G_serve\<rparr>))
      | G_serve \<Rightarrow> \<comment> \<open>line 133, the call\<close>
          Some (emit (Serve masterListener MuxRouter) (s\<lparr>master_pc := G_serving\<rparr>))
      | G_serving \<Rightarrow> \<comment> \<open>lines 133 to 135, the return with an error\<close>
          (case serveError e Master of
             Some msg \<Rightarrow> Some (Fatalf (Fatal_MasterServe msg) s)
           | None \<Rightarrow> None))"

text \<open>The goroutine of lines 120 to 130.\<close>

definition raft_step :: "env \<Rightarrow> state \<Rightarrow> state option" where
  "raft_step e s =
     (case raft_pc s of
        R_notStarted \<Rightarrow> None
      | R_wait \<Rightarrow> \<comment> \<open>line 121\<close>
          (if raftWaitForMaster s = 0 then Some (s\<lparr>raft_pc := R_sleep\<rparr>) else None)
      | R_sleep \<Rightarrow> \<comment> \<open>line 122\<close>
          Some (emit (Sleep 100) (s\<lparr>raft_pc := R_peers\<rparr>))
      | R_peers \<Rightarrow> \<comment> \<open>lines 123 to 126\<close>
          (if serverPeers (fl s) \<noteq> []
           then Some (s\<lparr>peers := Split (serverPeers (fl s)) CHR '','',
                         raft_pc := R_newRaftServer\<rparr>)
           else Some (s\<lparr>peers := [], raft_pc := R_newRaftServer\<rparr>))
      | R_newRaftServer \<Rightarrow> \<comment> \<open>line 127\<close>
          Some (emit (NewRaftServer
                  \<lparr> rs_r = MuxRouter, rs_version = VERSION (fl s), rs_peers = peers s,
                    rs_httpAddr = ipPort (serverIp (fl s)) (masterPort (fl s)),
                    rs_dataDir = masterMetaFolder (fl s), rs_topo = ms_Topo,
                    rs_pulseSeconds = volumePulse (fl s) \<rparr>)
                (s\<lparr>raft_pc := R_setRaftServer\<rparr>))
      | R_setRaftServer \<Rightarrow> \<comment> \<open>line 128\<close>
          Some (emit SetRaftServer (s\<lparr>raft_pc := R_done\<rparr>))
      | R_done \<Rightarrow> \<comment> \<open>line 129\<close>
          (case wgDone (volumeWait s) of
             Inl x \<Rightarrow> Some (Fatalf x s)
           | Inr n \<Rightarrow> Some (s\<lparr>volumeWait := n, raft_pc := R_finished\<rparr>))
      | R_finished \<Rightarrow> None)"

text \<open>
  One step of the process: the thread chosen executes its next statement. After a fatal
  exit nothing moves. The scheduler of Go may run the threads in any order and gives no
  bound on how long a runnable goroutine waits, so \<open>time.Sleep\<close> orders nothing: a
  schedule is any sequence of thread choices, and a choice of a thread that cannot move
  is skipped.
\<close>

definition step :: "env \<Rightarrow> tid \<Rightarrow> state \<Rightarrow> state option" where
  "step e t s =
     (if exited s \<noteq> None then None
      else case t of
             Main \<Rightarrow> main_step e s
           | Master \<Rightarrow> master_step e s
           | Raft \<Rightarrow> raft_step e s)"

fun exec :: "env \<Rightarrow> tid list \<Rightarrow> state \<Rightarrow> state" where
  "exec e [] s = s"
| "exec e (t # ts) s =
     (case step e t s of
        None \<Rightarrow> exec e ts s
      | Some s' \<Rightarrow> exec e ts s')"

definition runServer :: "env \<Rightarrow> tid list \<Rightarrow> flags \<Rightarrow> state" where
  "runServer e sched f = exec e sched (init f)"

section \<open>Observations on runs\<close>

text \<open>
  How far each thread has come, as a number: the position of its next statement in the
  order of the source. The invariants below are stated on these numbers.
\<close>

fun main_rank :: "main_pc \<Rightarrow> nat" where
  "main_rank M_maxCpu = 0" | "main_rank M_metaFolder = 1" | "main_rank M_split = 2"
| "main_rank M_parseMax = 3" | "main_rank M_checkLen = 4" | "main_rank M_checkFolders = 5"
| "main_rank M_publicUrl = 6" | "main_rank M_whiteList = 7" | "main_rank M_waitGroups = 8"
| "main_rank M_goMaster = 9" | "main_rank M_volumeWait = 10" | "main_rank M_sleep = 11"
| "main_rank M_newServeMux = 12" | "main_rank M_newVolumeServer = 13"
| "main_rank M_listen = 14" | "main_rank M_serve = 15" | "main_rank M_serving = 16"

fun master_rank :: "master_pc \<Rightarrow> nat" where
  "master_rank G_notStarted = 0" | "master_rank G_newRouter = 1"
| "master_rank G_newMasterServer = 2" | "master_rank G_listen = 3"
| "master_rank G_goRaft = 4" | "master_rank G_done = 5" | "master_rank G_serve = 6"
| "master_rank G_serving = 7"

fun raft_rank :: "raft_pc \<Rightarrow> nat" where
  "raft_rank R_notStarted = 0" | "raft_rank R_wait = 1" | "raft_rank R_sleep = 2"
| "raft_rank R_peers = 3" | "raft_rank R_newRaftServer = 4"
| "raft_rank R_setRaftServer = 5" | "raft_rank R_done = 6" | "raft_rank R_finished = 7"

text \<open>
  The flags as they stand once lines 61 to 94 have written their defaults back, and the
  lists that lines 95 to 97 and 123 to 126 compute from \<open>-whiteList\<close> and \<open>-peers\<close>.
\<close>

definition effective :: "env \<Rightarrow> flags \<Rightarrow> flags" where
  "effective e f = setPublicUrl (setMetaFolder (setMaxCpu e f))"

definition whiteList_of :: "flags \<Rightarrow> string list" where
  "whiteList_of f =
     (if serverWhiteListOption f \<noteq> [] then Split (serverWhiteListOption f) CHR '','' else [])"

definition peers_of :: "flags \<Rightarrow> string list" where
  "peers_of f = (if serverPeers f \<noteq> [] then Split (serverPeers f) CHR '','' else [])"

text \<open>
  The arguments that the three constructor calls receive, written on the flags the
  process was started with.
\<close>

definition master_args_of :: "flags \<Rightarrow> master_args" where
  "master_args_of f =
     \<lparr> ms_r = MuxRouter, ms_version = VERSION f, ms_port = masterPort f,
       ms_metaFolder = masterMetaFolder (setMetaFolder f),
       ms_volumeSizeLimitMB = masterVolumeSizeLimitMB f,
       ms_pulseSeconds = volumePulse f, ms_confFile = masterConfFile f,
       ms_defaultReplicaPlacement = masterDefaultReplicaPlacement f,
       ms_garbageThreshold = garbageThreshold f,
       ms_whiteList = whiteList_of f \<rparr>"

definition raft_args_of :: "flags \<Rightarrow> raft_args" where
  "raft_args_of f =
     \<lparr> rs_r = MuxRouter, rs_version = VERSION f, rs_peers = peers_of f,
       rs_httpAddr = ipPort (serverIp f) (masterPort f),
       rs_dataDir = masterMetaFolder (setMetaFolder f), rs_topo = ms_Topo,
       rs_pulseSeconds = volumePulse f \<rparr>"

definition volume_args_of :: "flags \<Rightarrow> volume_args" where
  "volume_args_of f =
     \<lparr> vs_r = ServeMux, vs_version = VERSION f, vs_ip = serverIp f,
       vs_port = volumePort f, vs_publicUrl = volumePublicUrl (setPublicUrl f),
       vs_folders = Split (volumeDataFolders f) CHR '','',
       vs_maxCounts = map (\<lambda>m. fst (Atoi m)) (Split (volumeMaxDataVolumeCounts f) CHR '',''),
       vs_masterNode = ipPort (serverIp f) (masterPort f),
       vs_pulseSeconds = volumePulse f,
       vs_dataCenter = serverDataCenter f, vs_rack = serverRack f,
       vs_whiteList = whiteList_of f \<rparr>"

text \<open>
  What holds in every reachable state. First the flags and \<open>serverWhiteList\<close>: which
  of the defaults have been written, by the position of the caller.
\<close>

definition inv_flags :: "env \<Rightarrow> flags \<Rightarrow> state \<Rightarrow> bool" where
  "inv_flags e f s =
     (let k = main_rank (main_pc s) in
      (k = 0 \<longrightarrow> fl s = f) \<and>
      (k = 1 \<longrightarrow> setMetaFolder (fl s) = setMetaFolder (setMaxCpu e f)) \<and>
      (2 \<le> k \<and> k \<le> 6 \<longrightarrow> fl s = setMetaFolder (setMaxCpu e f)) \<and>
      (7 \<le> k \<longrightarrow> fl s = effective e f) \<and>
      (k \<le> 7 \<longrightarrow> serverWhiteList s = []) \<and>
      (8 \<le> k \<longrightarrow> serverWhiteList s = whiteList_of f))"

text \<open>
  The local variables of \<open>runServer\<close> and the checks the caller has passed: being past
  a check means that the check succeeded.
\<close>

definition inv_locals :: "env \<Rightarrow> flags \<Rightarrow> state \<Rightarrow> bool" where
  "inv_locals e f s =
     (let k = main_rank (main_pc s) in
      (2 \<le> k \<longrightarrow> folderWritable e (masterMetaFolder (setMetaFolder f))) \<and>
      (3 \<le> k \<longrightarrow> folders s = Split (volumeDataFolders f) CHR '','' \<and>
                 maxCountStrings s = Split (volumeMaxDataVolumeCounts f) CHR '','') \<and>
      (4 \<le> k \<longrightarrow> maxCounts s = map (\<lambda>m. fst (Atoi m)) (maxCountStrings s) \<and>
                 (\<forall>m \<in> set (maxCountStrings s). snd (Atoi m) = None)) \<and>
      (5 \<le> k \<longrightarrow> length (folders s) = length (maxCounts s)) \<and>
      (6 \<le> k \<longrightarrow> (\<forall>d \<in> set (folders s). folderWritable e d)))"

text \<open>
  The wait groups and the threads: a goroutine exists only after its \<open>go\<close> statement;
  each counter is 1 from \<open>Add(1)\<close> until its \<open>Done()\<close> and 0 before and after; the raft
  goroutine is past \<open>raftWaitForMaster.Wait()\<close> only when the master goroutine is past
  \<open>Done()\<close>, and the caller is past \<open>volumeWait.Wait()\<close> only when the raft goroutine has
  finished.
\<close>

definition inv_sync :: "state \<Rightarrow> bool" where
  "inv_sync s =
     (let k = main_rank (main_pc s); g = master_rank (master_pc s); r = raft_rank (raft_pc s) in
      (k \<le> 8 \<longrightarrow> raftWaitForMaster s = 0 \<and> volumeWait s = 0) \<and>
      (k \<le> 9 \<longrightarrow> g = 0) \<and>
      (10 \<le> k \<longrightarrow> 1 \<le> g) \<and>
      (g \<le> 4 \<longrightarrow> r = 0) \<and>
      (5 \<le> g \<longrightarrow> 1 \<le> r) \<and>
      (9 \<le> k \<longrightarrow> raftWaitForMaster s = (if g \<le> 5 then 1 else 0)) \<and>
      (9 \<le> k \<longrightarrow> volumeWait s = (if r \<le> 6 then 1 else 0)) \<and>
      (2 \<le> r \<longrightarrow> 6 \<le> g) \<and>
      (11 \<le> k \<longrightarrow> r = 7))"

text \<open>
  The variable \<open>peers\<close> of the raft goroutine: nil until lines 123 to 126, the parsed
  flag from then on.
\<close>

definition inv_peers :: "flags \<Rightarrow> state \<Rightarrow> bool" where
  "inv_peers f s =
     (if 4 \<le> raft_rank (raft_pc s) then peers s = peers_of f else peers s = [])"

text \<open>
  The calls in the trace: a call is in the trace exactly when the thread that makes it
  is past it, and then with the arguments computed from the flags.
\<close>

definition inv_ev_gomaxprocs :: "env \<Rightarrow> flags \<Rightarrow> state \<Rightarrow> bool" where
  "inv_ev_gomaxprocs e f s =
     (\<forall>n. GOMAXPROCS n \<in> set (trace s) \<longleftrightarrow>
           1 \<le> main_rank (main_pc s) \<and> n = serverMaxCpu (setMaxCpu e f))"

text \<open>
  \<open>precedes P Q xs\<close>: no element satisfying \<open>Q\<close> comes before the first element
  satisfying \<open>P\<close>; so every \<open>Q\<close> in the list has a \<open>P\<close> at or before it (lemma
  \<open>precedes_nth\<close> below). The predicates that follow recognise the calls compared.
\<close>

fun precedes :: "('a \<Rightarrow> bool) \<Rightarrow> ('a \<Rightarrow> bool) \<Rightarrow> 'a list \<Rightarrow> bool" where
  "precedes P Q [] = True"
| "precedes P Q (x # xs) = (if P x then True else if Q x then False else precedes P Q xs)"

fun is_NewMasterServer :: "event \<Rightarrow> bool" where
  "is_NewMasterServer (NewMasterServer a) = True"
| "is_NewMasterServer ev = False"

fun is_NewRaftServer :: "event \<Rightarrow> bool" where
  "is_NewRaftServer (NewRaftServer a) = True"
| "is_NewRaftServer ev = False"

fun is_NewVolumeServer :: "event \<Rightarrow> bool" where
  "is_NewVolumeServer (NewVolumeServer a) = True"
| "is_NewVolumeServer ev = False"

fun is_masterListen :: "event \<Rightarrow> bool" where
  "is_masterListen (NewListener l a t) = (l = masterListener)"
| "is_masterListen ev = False"

fun is_masterServe :: "event \<Rightarrow> bool" where
  "is_masterServe (Serve l r) = (l = masterListener)"
| "is_masterServe ev = False"

definition inv_ev_master :: "flags \<Rightarrow> state \<Rightarrow> bool" where
  "inv_ev_master f s =
     (\<forall>a. NewMasterServer a \<in> set (trace s) \<longleftrightarrow>
           3 \<le> master_rank (master_pc s) \<and> a = master_args_of f)"

definition inv_ev_listen :: "flags \<Rightarrow> state \<Rightarrow> bool" where
  "inv_ev_listen f s =
     (\<forall>a t. NewListener masterListener a t \<in> set (trace s) \<longleftrightarrow>
           4 \<le> master_rank (master_pc s) \<and> a = ipPort (serverIp f) (masterPort f)
             \<and> t = Seconds (serverTimeout f))"

definition inv_ev_raft :: "flags \<Rightarrow> state \<Rightarrow> bool" where
  "inv_ev_raft f s =
     (\<forall>a. NewRaftServer a \<in> set (trace s) \<longleftrightarrow>
           5 \<le> raft_rank (raft_pc s) \<and> a = raft_args_of f)"

definition inv_ev_setraft :: "state \<Rightarrow> bool" where
  "inv_ev_setraft s = (SetRaftServer \<in> set (trace s) \<longleftrightarrow> 6 \<le> raft_rank (raft_pc s))"

definition inv_ev_volume :: "flags \<Rightarrow> state \<Rightarrow> bool" where
  "inv_ev_volume f s =
     (\<forall>a. NewVolumeServer a \<in> set (trace s) \<longleftrightarrow>
           14 \<le> main_rank (main_pc s) \<and> a = volume_args_of f)"

definition inv_ev_serve :: "state \<Rightarrow> bool" where
  "inv_ev_serve s =
     (\<forall>r. Serve masterListener r \<in> set (trace s) \<longleftrightarrow>
           7 \<le> master_rank (master_pc s) \<and> r = MuxRouter)"

text \<open>
  \<open>NewRaftServer\<close> is called at most once, and the calls come in the order the wait
  groups impose.
\<close>

definition inv_count :: "state \<Rightarrow> bool" where
  "inv_count s =
     (length (filter is_NewRaftServer (trace s)) = (if 5 \<le> raft_rank (raft_pc s) then 1 else 0))"

definition inv_order :: "state \<Rightarrow> bool" where
  "inv_order s =
     (precedes is_NewMasterServer is_NewRaftServer (trace s) \<and>
      precedes is_masterListen is_NewRaftServer (trace s) \<and>
      precedes is_NewRaftServer is_NewVolumeServer (trace s) \<and>
      precedes (\<lambda>ev. ev = SetRaftServer) is_NewVolumeServer (trace s))"

text \<open>All the invariants together.\<close>

definition inv :: "env \<Rightarrow> flags \<Rightarrow> state \<Rightarrow> bool" where
  "inv e f s =
     (inv_flags e f s \<and> inv_locals e f s \<and> inv_sync s \<and> inv_peers f s \<and>
      inv_ev_gomaxprocs e f s \<and> inv_ev_master f s \<and> inv_ev_listen f s \<and>
      inv_ev_raft f s \<and> inv_ev_setraft s \<and> inv_ev_volume f s \<and> inv_ev_serve s \<and>
      inv_count s \<and> inv_order s)"

section \<open>Accepted configurations, schedules and concrete inputs\<close>

text \<open>
  The startup checks of lines 69 to 90, as a predicate on the flags and the file system:
  the metadata folder (after the default of lines 66 to 68) is writable, every entry of
  \<open>-max\<close> is accepted by \<open>Atoi\<close>, \<open>-dir\<close> and \<open>-max\<close> have the same number of entries,
  and every data folder is writable.
\<close>

definition accepted :: "env \<Rightarrow> flags \<Rightarrow> bool" where
  "accepted e f \<longleftrightarrow>
     folderWritable e (masterMetaFolder (setMetaFolder f)) \<and>
     (\<forall>m \<in> set (Split (volumeMaxDataVolumeCounts f) CHR '',''). snd (Atoi m) = None) \<and>
     length (Split (volumeDataFolders f) CHR '','') =
       length (Split (volumeMaxDataVolumeCounts f) CHR '','') \<and>
     (\<forall>d \<in> set (Split (volumeDataFolders f) CHR '',''). folderWritable e d)"

text \<open>The fatal exits of the configuration checks, lines 70, 80, 84 and 88.\<close>

fun is_config_fatal :: "fatal \<Rightarrow> bool" where
  "is_config_fatal (Fatal_MetaFolder p) = True"
| "is_config_fatal (Fatal_MaxNotNumber n) = True"
| "is_config_fatal (Fatal_DirMaxMismatch n m) = True"
| "is_config_fatal (Fatal_DataFolder p) = True"
| "is_config_fatal x = False"

text \<open>
  \<open>setup_sched\<close> runs the caller from line 61 to its \<open>volumeWait.Wait()\<close> of line 138.
  \<open>race_sched\<close> then runs the master goroutine up to and including
  \<open>raftWaitForMaster.Done()\<close> (line 132), but not yet its \<open>http.Serve\<close> (line 133), and
  the raft goroutine through its wait, its sleep and \<open>NewRaftServer\<close> (line 127).
  \<open>full_sched\<close> runs the master goroutine into \<open>http.Serve\<close>, the raft goroutine to its
  end and the caller into its own \<open>http.Serve\<close>.
\<close>

definition setup_sched :: "tid list" where
  "setup_sched = [Main, Main, Main, Main, Main, Main, Main, Main, Main, Main]"

definition race_sched :: "tid list" where
  "race_sched =
     setup_sched @ [Master, Master, Master, Master, Master] @ [Raft, Raft, Raft, Raft]"

definition full_sched :: "tid list" where
  "full_sched =
     setup_sched @ [Master, Master, Master, Master, Master, Master] @
     [Raft, Raft, Raft, Raft, Raft, Raft] @ [Main, Main, Main, Main, Main, Main]"

text \<open>
  A machine with four CPUs on which \<open>/tmp\<close> and \<open>/data\<close> are the writable folders,
  every address can be listened on and \<open>http.Serve\<close> never returns.
\<close>

definition env0 :: env where
  "env0 =
     \<lparr> NumCPU = 4, folderWritable = (\<lambda>p. p = ''/tmp'' \<or> p = ''/data''),
       listenError = (\<lambda>t a. None), serveError = (\<lambda>t. None) \<rparr>"

text \<open>The default flags on a machine whose \<open>os.TempDir()\<close> is \<open>/tmp\<close>.\<close>

definition flags0 :: flags where
  "flags0 = default_flags ''/tmp'' ''0.3'' ''0.51''"

text \<open>
  Two data folders with their counts, a metadata folder, two peers and an allow-list of
  two addresses.
\<close>

definition flags1 :: flags where
  "flags1 =
     flags0 \<lparr> serverWhiteListOption := ''10.0.0.1,10.0.0.2'',
              serverPeers := ''m1:9333,m2:9333'',
              masterMetaFolder := ''/tmp'',
              volumeDataFolders := ''/tmp,/data'',
              volumeMaxDataVolumeCounts := ''7,9'' \<rparr>"

text \<open>Two data folders and no \<open>-mdir\<close>.\<close>

definition flags2 :: flags where
  "flags2 =
     flags0 \<lparr> volumeDataFolders := ''/tmp,/data'', volumeMaxDataVolumeCounts := ''7,9'' \<rparr>"

text \<open>Two data folders and only one count.\<close>

definition flags3 :: flags where
  "flags3 = flags1 \<lparr> volumeMaxDataVolumeCounts := ''7'' \<rparr>"

section \<open>Invariants of the transition system\<close>

lemmas step_defs = step_def main_step_def master_step_def raft_step_def emit_def Fatalf_def
  wgDone_def Let_def

lemma setMetaFolder_idem: "setMetaFolder (setMetaFolder f) = setMetaFolder f"
  by (simp add: setMetaFolder_def)

lemma set_fields [simp]:
  "volumeDataFolders (setMaxCpu e f) = volumeDataFolders f"
  "volumeMaxDataVolumeCounts (setMaxCpu e f) = volumeMaxDataVolumeCounts f"
  "masterMetaFolder (setMaxCpu e f) = masterMetaFolder f"
  "volumeDataFolders (setMetaFolder f) = volumeDataFolders f"
  "volumeMaxDataVolumeCounts (setMetaFolder f) = volumeMaxDataVolumeCounts f"
  "serverWhiteListOption (setMaxCpu e f) = serverWhiteListOption f"
  "serverWhiteListOption (setMetaFolder f) = serverWhiteListOption f"
  "serverWhiteListOption (setPublicUrl f) = serverWhiteListOption f"
  "masterMetaFolder (setMetaFolder (setMaxCpu e f)) = masterMetaFolder (setMetaFolder f)"
  by (simp_all add: setMaxCpu_def setMetaFolder_def setPublicUrl_def)

lemma effective_fields [simp]:
  "serverIp (effective e f) = serverIp f"
  "serverTimeout (effective e f) = serverTimeout f"
  "serverDataCenter (effective e f) = serverDataCenter f"
  "serverRack (effective e f) = serverRack f"
  "serverWhiteListOption (effective e f) = serverWhiteListOption f"
  "serverPeers (effective e f) = serverPeers f"
  "masterPort (effective e f) = masterPort f"
  "masterMetaFolder (effective e f) = masterMetaFolder (setMetaFolder f)"
  "masterVolumeSizeLimitMB (effective e f) = masterVolumeSizeLimitMB f"
  "masterConfFile (effective e f) = masterConfFile f"
  "masterDefaultReplicaPlacement (effective e f) = masterDefaultReplicaPlacement f"
  "volumePort (effective e f) = volumePort f"
  "volumePublicUrl (effective e f) = volumePublicUrl (setPublicUrl f)"
  "volumeDataFolders (effective e f) = volumeDataFolders f"
  "volumeMaxDataVolumeCounts (effective e f) = volumeMaxDataVolumeCounts f"
  "volumePulse (effective e f) = volumePulse f"
  "garbageThreshold (effective e f) = garbageThreshold f"
  "VERSION (effective e f) = VERSION f"
  by (simp_all add: effective_def setMaxCpu_def setMetaFolder_def setPublicUrl_def)

lemma main_rank_le: "main_rank p \<le> 16"
  by (cases p) simp_all

lemma master_rank_le: "master_rank p \<le> 7"
  by (cases p) simp_all

lemma raft_rank_le: "raft_rank p \<le> 7"
  by (cases p) simp_all

lemma parseMaxCounts_Inr:
  "parseMaxCounts xs acc = Inr ys \<Longrightarrow>
     ys = acc @ map (\<lambda>m. fst (Atoi m)) xs \<and> (\<forall>m \<in> set xs. snd (Atoi m) = None)"
proof (induction xs arbitrary: acc)
  case Nil
  then show ?case by simp
next
  case (Cons x xs)
  obtain v err where a: "Atoi x = (v, err)" by (cases "Atoi x")
  with Cons.prems have none: "err = None"
    by (cases err) simp_all
  with a Cons.prems have "parseMaxCounts xs (acc @ [v]) = Inr ys" by simp
  from Cons.IH [OF this] a none show ?case by simp
qed

lemma parseMaxCounts_ok:
  "\<forall>m \<in> set xs. snd (Atoi m) = None \<Longrightarrow>
     parseMaxCounts xs acc = Inr (acc @ map (\<lambda>m. fst (Atoi m)) xs)"
  by (induction xs arbitrary: acc) (auto split: prod.splits option.splits)

lemma parseMaxCounts_Inl:
  "\<exists>m \<in> set xs. snd (Atoi m) \<noteq> None \<Longrightarrow> \<exists>n. parseMaxCounts xs acc = Inl (Fatal_MaxNotNumber n)"
  by (induction xs arbitrary: acc) (auto split: prod.splits option.splits)

lemma checkFolders_None: "checkFolders e ds = None \<longleftrightarrow> (\<forall>d \<in> set ds. folderWritable e d)"
  by (induction ds) auto

lemma checkFolders_Some:
  "checkFolders e ds = Some x \<Longrightarrow> \<exists>d \<in> set ds. x = Fatal_DataFolder d \<and> \<not> folderWritable e d"
  by (induction ds) (auto split: if_splits)

lemma inv_flags_step:
  assumes "inv_flags e f s" and "step e t s = Some s'"
  shows "inv_flags e f s'"
proof (cases t)
  case Main
  with assms show ?thesis
    by (cases "main_pc s";
        clarsimp simp: inv_flags_def step_defs setMetaFolder_idem effective_def
             split: if_splits option.splits sum.splits;
        simp add: whiteList_of_def)
next
  case Master
  with assms show ?thesis
    by (cases "master_pc s";
       clarsimp simp: inv_flags_def step_defs split: if_splits option.splits sum.splits)
next
  case Raft
  with assms show ?thesis
    by (cases "raft_pc s";
       clarsimp simp: inv_flags_def step_defs split: if_splits option.splits sum.splits)
qed

lemma inv_locals_step:
  assumes "inv_flags e f s" and "inv_locals e f s" and "step e t s = Some s'"
  shows "inv_locals e f s'"
proof (cases t)
  case Main
  with assms show ?thesis
    by (cases "main_pc s";
       clarsimp simp: inv_flags_def inv_locals_def step_defs setMetaFolder_idem checkFolders_None
             split: if_splits option.splits sum.splits dest!: parseMaxCounts_Inr)
next
  case Master
  with assms show ?thesis
    by (cases "master_pc s";
       clarsimp simp: inv_locals_def step_defs split: if_splits option.splits sum.splits)
next
  case Raft
  with assms show ?thesis
    by (cases "raft_pc s";
       clarsimp simp: inv_locals_def step_defs split: if_splits option.splits sum.splits)
qed

lemma inv_sync_step:
  assumes "inv_sync s" and "step e t s = Some s'"
  shows "inv_sync s'"
proof (cases t)
  case Main
  with assms raft_rank_le [of "raft_pc s"] show ?thesis
    by (cases "main_pc s";
       clarsimp simp: inv_sync_def step_defs split: if_splits option.splits sum.splits)
next
  case Master
  with assms show ?thesis
    by (cases "master_pc s";
       clarsimp simp: inv_sync_def step_defs split: if_splits option.splits sum.splits)
next
  case Raft
  with assms show ?thesis
    by (cases "raft_pc s";
       clarsimp simp: inv_sync_def step_defs split: if_splits option.splits sum.splits)
qed

lemma inv_peers_step:
  assumes "inv_flags e f s" and "inv_sync s" and "inv_peers f s" and "step e t s = Some s'"
  shows "inv_peers f s'"
proof (cases t)
  case Main
  with assms show ?thesis
    by (cases "main_pc s";
       clarsimp simp: inv_peers_def inv_sync_def step_defs split: if_splits option.splits sum.splits)
next
  case Master
  with assms show ?thesis
    by (cases "master_pc s";
       clarsimp simp: inv_peers_def inv_sync_def step_defs split: if_splits option.splits sum.splits)
next
  case Raft
  with assms show ?thesis
    by (cases "raft_pc s";
       clarsimp simp: inv_peers_def inv_sync_def inv_flags_def peers_of_def step_defs split: if_splits option.splits sum.splits)
qed

lemmas inv_splits = if_splits option.splits sum.splits

lemma inv_ev_gomaxprocs_step:
  assumes "inv_flags e f s" and "inv_sync s"
    and "inv_ev_gomaxprocs e f s" and "step e t s = Some s'"
  shows "inv_ev_gomaxprocs e f s'"
proof (cases t)
  case Main
  with assms show ?thesis
    by (cases "main_pc s";
        clarsimp simp: inv_ev_gomaxprocs_def inv_flags_def step_defs split: inv_splits)
next
  case Master
  with assms show ?thesis
    by (cases "master_pc s";
        clarsimp simp: inv_ev_gomaxprocs_def step_defs split: inv_splits)
next
  case Raft
  with assms show ?thesis
    by (cases "raft_pc s";
        clarsimp simp: inv_ev_gomaxprocs_def step_defs split: inv_splits)
qed

lemma precedes_snoc:
  "precedes P Q (xs @ [x]) \<longleftrightarrow> precedes P Q xs \<and> (Q x \<longrightarrow> P x \<or> (\<exists>y \<in> set xs. P y))"
  by (induction xs) auto

lemma inv_ev_master_step:
  assumes "inv_flags e f s" and "inv_sync s"
    and "inv_ev_master f s" and "step e t s = Some s'"
  shows "inv_ev_master f s'"
proof (cases t)
  case Main
  with assms show ?thesis
    by (cases "main_pc s";
        clarsimp simp: inv_ev_master_def inv_sync_def step_defs split: inv_splits)
next
  case Master
  with assms show ?thesis
    by (cases "master_pc s";
        clarsimp simp: inv_ev_master_def inv_flags_def inv_sync_def step_defs master_args_of_def
          split: inv_splits; blast?)
next
  case Raft
  with assms show ?thesis
    by (cases "raft_pc s";
        clarsimp simp: inv_ev_master_def step_defs split: inv_splits)
qed

lemma inv_ev_listen_step:
  assumes "inv_flags e f s" and "inv_sync s"
    and "inv_ev_listen f s" and "step e t s = Some s'"
  shows "inv_ev_listen f s'"
proof (cases t)
  case Main
  with assms show ?thesis
    by (cases "main_pc s";
        clarsimp simp: inv_ev_listen_def inv_sync_def step_defs split: inv_splits)
next
  case Master
  with assms show ?thesis
    by (cases "master_pc s";
        clarsimp simp: inv_ev_listen_def inv_flags_def inv_sync_def step_defs
          split: inv_splits; blast?)
next
  case Raft
  with assms show ?thesis
    by (cases "raft_pc s";
        clarsimp simp: inv_ev_listen_def step_defs split: inv_splits)
qed

lemma inv_ev_raft_step:
  assumes "inv_flags e f s" and "inv_sync s" and "inv_peers f s"
    and "inv_ev_raft f s" and "step e t s = Some s'"
  shows "inv_ev_raft f s'"
proof (cases t)
  case Main
  with assms show ?thesis
    by (cases "main_pc s";
        clarsimp simp: inv_ev_raft_def step_defs split: inv_splits)
next
  case Master
  with assms show ?thesis
    by (cases "master_pc s";
        clarsimp simp: inv_ev_raft_def inv_sync_def step_defs split: inv_splits)
next
  case Raft
  with assms show ?thesis
    by (cases "raft_pc s";
        clarsimp simp: inv_ev_raft_def inv_flags_def inv_sync_def inv_peers_def step_defs
             raft_args_of_def split: inv_splits; blast?)
qed

lemma inv_ev_setraft_step:
  assumes "inv_sync s" and "inv_ev_setraft s" and "step e t s = Some s'"
  shows "inv_ev_setraft s'"
proof (cases t)
  case Main
  with assms show ?thesis
    by (cases "main_pc s";
        clarsimp simp: inv_ev_setraft_def step_defs split: inv_splits)
next
  case Master
  with assms show ?thesis
    by (cases "master_pc s";
        clarsimp simp: inv_ev_setraft_def inv_sync_def step_defs split: inv_splits)
next
  case Raft
  with assms show ?thesis
    by (cases "raft_pc s";
        clarsimp simp: inv_ev_setraft_def step_defs split: inv_splits)
qed

lemma inv_ev_volume_step:
  assumes "inv_flags e f s" and "inv_locals e f s"
    and "inv_ev_volume f s" and "step e t s = Some s'"
  shows "inv_ev_volume f s'"
proof (cases t)
  case Main
  with assms show ?thesis
    by (cases "main_pc s";
        clarsimp simp: inv_ev_volume_def inv_flags_def inv_locals_def step_defs
          volume_args_of_def split: inv_splits; blast?)
next
  case Master
  with assms show ?thesis
    by (cases "master_pc s";
        clarsimp simp: inv_ev_volume_def step_defs split: inv_splits)
next
  case Raft
  with assms show ?thesis
    by (cases "raft_pc s";
        clarsimp simp: inv_ev_volume_def step_defs split: inv_splits)
qed

lemma inv_ev_serve_step:
  assumes "inv_sync s" and "inv_ev_serve s" and "step e t s = Some s'"
  shows "inv_ev_serve s'"
proof (cases t)
  case Main
  with assms show ?thesis
    by (cases "main_pc s";
        clarsimp simp: inv_ev_serve_def inv_sync_def step_defs split: inv_splits)
next
  case Master
  with assms show ?thesis
    by (cases "master_pc s";
        clarsimp simp: inv_ev_serve_def step_defs split: inv_splits; blast?)
next
  case Raft
  with assms show ?thesis
    by (cases "raft_pc s";
        clarsimp simp: inv_ev_serve_def step_defs split: inv_splits)
qed

lemma inv_count_step:
  assumes "inv_sync s" and "inv_count s" and "step e t s = Some s'"
  shows "inv_count s'"
proof (cases t)
  case Main
  with assms show ?thesis
    by (cases "main_pc s";
        clarsimp simp: inv_count_def step_defs split: inv_splits)
next
  case Master
  with assms show ?thesis
    by (cases "master_pc s";
        clarsimp simp: inv_count_def inv_sync_def step_defs split: inv_splits)
next
  case Raft
  with assms show ?thesis
    by (cases "raft_pc s";
        clarsimp simp: inv_count_def step_defs split: inv_splits)
qed

lemma step_trace:
  assumes "step e t s = Some s'"
  shows "trace s' = trace s \<or> (\<exists>ev. trace s' = trace s @ [ev])"
proof (cases t)
  case Main
  with assms show ?thesis
    by (cases "main_pc s"; clarsimp simp: step_defs split: inv_splits)
next
  case Master
  with assms show ?thesis
    by (cases "master_pc s"; clarsimp simp: step_defs split: inv_splits)
next
  case Raft
  with assms show ?thesis
    by (cases "raft_pc s"; clarsimp simp: step_defs split: inv_splits)
qed

lemma step_emits_raft:
  assumes "step e t s = Some s'" and "trace s' = trace s @ [ev]" and "is_NewRaftServer ev"
  shows "raft_pc s = R_newRaftServer"
proof (cases t)
  case Main
  with assms show ?thesis
    by (cases "main_pc s"; clarsimp simp: step_defs split: inv_splits)
next
  case Master
  with assms show ?thesis
    by (cases "master_pc s"; clarsimp simp: step_defs split: inv_splits)
next
  case Raft
  with assms show ?thesis
    by (cases "raft_pc s"; clarsimp simp: step_defs split: inv_splits)
qed

lemma step_emits_volume:
  assumes "step e t s = Some s'" and "trace s' = trace s @ [ev]" and "is_NewVolumeServer ev"
  shows "main_pc s = M_newVolumeServer"
proof (cases t)
  case Main
  with assms show ?thesis
    by (cases "main_pc s"; clarsimp simp: step_defs split: inv_splits)
next
  case Master
  with assms show ?thesis
    by (cases "master_pc s"; clarsimp simp: step_defs split: inv_splits)
next
  case Raft
  with assms show ?thesis
    by (cases "raft_pc s"; clarsimp simp: step_defs split: inv_splits)
qed

lemma precedes_step:
  assumes "step e t s = Some s'" and "precedes P Q (trace s)"
    and "\<And>ev. trace s' = trace s @ [ev] \<Longrightarrow> Q ev \<Longrightarrow> \<exists>y \<in> set (trace s). P y"
  shows "precedes P Q (trace s')"
  using step_trace [OF assms(1)] assms(2,3) by (auto simp: precedes_snoc)

lemma inv_order_step:
  assumes sync: "inv_sync s" and m: "inv_ev_master f s" and l: "inv_ev_listen f s"
    and r: "inv_ev_raft f s" and sr: "inv_ev_setraft s" and ord: "inv_order s"
    and st: "step e t s = Some s'"
  shows "inv_order s'"
proof -
  have at_raft: "\<exists>y \<in> set (trace s). is_NewMasterServer y"
    "\<exists>y \<in> set (trace s). is_masterListen y"
    if "trace s' = trace s @ [ev]" and "is_NewRaftServer ev" for ev
  proof -
    from st that have "raft_pc s = R_newRaftServer" by (rule step_emits_raft)
    with sync have g: "6 \<le> master_rank (master_pc s)" by (simp add: inv_sync_def Let_def)
    with m have "NewMasterServer (master_args_of f) \<in> set (trace s)"
      by (simp add: inv_ev_master_def)
    then show "\<exists>y \<in> set (trace s). is_NewMasterServer y" by force
    from g l have "NewListener masterListener (ipPort (serverIp f) (masterPort f))
        (Seconds (serverTimeout f)) \<in> set (trace s)"
      by (simp add: inv_ev_listen_def)
    then show "\<exists>y \<in> set (trace s). is_masterListen y" by force
  qed
  have at_volume: "\<exists>y \<in> set (trace s). is_NewRaftServer y"
    "\<exists>y \<in> set (trace s). y = SetRaftServer"
    if "trace s' = trace s @ [ev]" and "is_NewVolumeServer ev" for ev
  proof -
    from st that have "main_pc s = M_newVolumeServer" by (rule step_emits_volume)
    with sync have g: "raft_rank (raft_pc s) = 7" by (simp add: inv_sync_def Let_def)
    with r have "NewRaftServer (raft_args_of f) \<in> set (trace s)"
      by (simp add: inv_ev_raft_def)
    then show "\<exists>y \<in> set (trace s). is_NewRaftServer y" by force
    from g sr have "SetRaftServer \<in> set (trace s)"
      by (simp add: inv_ev_setraft_def)
    then show "\<exists>y \<in> set (trace s). y = SetRaftServer" by simp
  qed
  from ord show ?thesis
    unfolding inv_order_def
    by (auto intro!: precedes_step [OF st] at_raft at_volume)
qed

lemma exec_invariant:
  assumes "\<And>s t s'. I s \<Longrightarrow> step e t s = Some s' \<Longrightarrow> I s'" and "I s"
  shows "I (exec e sched s)"
  using assms(2)
proof (induction sched arbitrary: s)
  case Nil
  then show ?case by simp
next
  case (Cons t ts)
  show ?case
  proof (cases "step e t s")
    case None
    with Cons show ?thesis by simp
  next
    case (Some s')
    with Cons.prems have "I s'" by (rule_tac assms(1))
    with Some Cons.IH show ?thesis by simp
  qed
qed

lemma main_rank_step:
  assumes "step e t s = Some s'"
  shows "main_rank (main_pc s) \<le> main_rank (main_pc s')"
proof (cases t)
  case Main
  with assms show ?thesis
    by (cases "main_pc s"; clarsimp simp: step_defs split: inv_splits)
next
  case Master
  with assms show ?thesis
    by (cases "master_pc s"; clarsimp simp: step_defs split: inv_splits)
next
  case Raft
  with assms show ?thesis
    by (cases "raft_pc s"; clarsimp simp: step_defs split: inv_splits)
qed

lemma main_rank_exec: "main_rank (main_pc s) \<le> main_rank (main_pc (exec e sched s))"
proof (induction sched arbitrary: s)
  case Nil
  then show ?case by simp
next
  case (Cons t ts)
  show ?case
  proof (cases "step e t s")
    case None
    with Cons show ?thesis by simp
  next
    case (Some s')
    have "main_rank (main_pc s) \<le> main_rank (main_pc s')"
      using Some by (rule main_rank_step)
    also have "\<dots> \<le> main_rank (main_pc (exec e ts s'))" by (rule Cons.IH)
    finally show ?thesis using Some by simp
  qed
qed

lemma not_started_step:
  "master_pc s = G_notStarted \<Longrightarrow> raft_pc s = R_notStarted \<Longrightarrow> t \<noteq> Main \<Longrightarrow>
     step e t s = None"
  by (cases t) (simp_all add: step_defs)

lemma first_main_step:
  "step e Main (init f) =
     Some (emit (GOMAXPROCS (serverMaxCpu (setMaxCpu e f)))
            ((init f)\<lparr>fl := setMaxCpu e f, main_pc := M_metaFolder\<rparr>))"
  by (simp add: step_defs init_def)

lemma main_moves:
  assumes "Main \<in> set sched"
  shows "1 \<le> main_rank (main_pc (exec e sched (init f)))"
  using assms
proof (induction sched)
  case Nil
  then show ?case by simp
next
  case (Cons t ts)
  show ?case
  proof (cases "t = Main")
    case True
    let ?s = "emit (GOMAXPROCS (serverMaxCpu (setMaxCpu e f)))
            ((init f)\<lparr>fl := setMaxCpu e f, main_pc := M_metaFolder\<rparr>)"
    have "1 \<le> main_rank (main_pc ?s)" by (simp add: emit_def)
    also have "\<dots> \<le> main_rank (main_pc (exec e ts ?s))" by (rule main_rank_exec)
    finally show ?thesis using True by (simp add: first_main_step)
  next
    case False
    then have "step e t (init f) = None"
      by (intro not_started_step) (simp_all add: init_def)
    with Cons False show ?thesis by simp
  qed
qed

lemma inv_init: "inv e f (init f)"
  by (simp add: inv_def inv_flags_def inv_locals_def inv_sync_def inv_peers_def
        inv_ev_gomaxprocs_def inv_ev_master_def inv_ev_listen_def inv_ev_raft_def
        inv_ev_setraft_def inv_ev_volume_def inv_ev_serve_def inv_count_def inv_order_def
        init_def)

lemma inv_step:
  assumes "inv e f s" and "step e t s = Some s'"
  shows "inv e f s'"
proof -
  from assms(1) have a: "inv_flags e f s" "inv_locals e f s" "inv_sync s" "inv_peers f s"
    "inv_ev_gomaxprocs e f s" "inv_ev_master f s" "inv_ev_listen f s" "inv_ev_raft f s"
    "inv_ev_setraft s" "inv_ev_volume f s" "inv_ev_serve s" "inv_count s" "inv_order s"
    by (simp_all add: inv_def)
  note st = assms(2)
  have "inv_flags e f s'" using a(1) st by (rule inv_flags_step)
  moreover have "inv_locals e f s'" using a(1,2) st by (rule inv_locals_step)
  moreover have "inv_sync s'" using a(3) st by (rule inv_sync_step)
  moreover have "inv_peers f s'" using a(1,3,4) st by (rule inv_peers_step)
  moreover have "inv_ev_gomaxprocs e f s'" using a(1,3,5) st by (rule inv_ev_gomaxprocs_step)
  moreover have "inv_ev_master f s'" using a(1,3,6) st by (rule inv_ev_master_step)
  moreover have "inv_ev_listen f s'" using a(1,3,7) st by (rule inv_ev_listen_step)
  moreover have "inv_ev_raft f s'" using a(1,3,4,8) st by (rule inv_ev_raft_step)
  moreover have "inv_ev_setraft s'" using a(3,9) st by (rule inv_ev_setraft_step)
  moreover have "inv_ev_volume f s'" using a(1,2,10) st by (rule inv_ev_volume_step)
  moreover have "inv_ev_serve s'" using a(3,11) st by (rule inv_ev_serve_step)
  moreover have "inv_count s'" using a(3,12) st by (rule inv_count_step)
  moreover have "inv_order s'" using a(3,6,7,8,9,13) st by (rule inv_order_step)
  ultimately show ?thesis by (simp add: inv_def)
qed

lemma inv_runServer: "inv e f (runServer e sched f)"
  unfolding runServer_def
  by (rule exec_invariant [where I = "inv e f"], erule (1) inv_step, rule inv_init)

subsection \<open>Evaluating a run on concrete flags\<close>

lemmas nat_digits_numeral = nat_digits.simps [of "numeral k" for k]

lemmas run_simps =
  Atoi_def ParseUint_def digit_val_def IntSize_def maxUint64_def Seconds_def int64_def
  Itoa_def nat_digits_numeral digit_char_def
  runServer_def init_def step_def main_step_def master_step_def raft_step_def emit_def
  Fatalf_def setMaxCpu_def setMetaFolder_def setPublicUrl_def ipPort_def wgDone_def
  default_flags_def Let_def

lemmas run_congs =
  main_pc.case_cong_weak master_pc.case_cong_weak raft_pc.case_cong_weak
  option.case_cong_weak sum.case_cong_weak tid.case_cong_weak prod.case_cong_weak

subsection \<open>What a constructor call in the trace tells\<close>

lemma exec_append: "exec e (xs @ ys) s = exec e ys (exec e xs s)"
  by (induction xs arbitrary: s) (simp_all split: option.splits)

lemma exec_exited: "exited s \<noteq> None \<Longrightarrow> exec e sched s = s"
  by (induction sched) (simp_all add: step_def)

lemma checkFolders_ok: "\<forall>d \<in> set ds. folderWritable e d \<Longrightarrow> checkFolders e ds = None"
  by (simp add: checkFolders_None)

lemma precedes_nth:
  "precedes P Q xs \<Longrightarrow> i < length xs \<Longrightarrow> Q (xs ! i) \<Longrightarrow> \<exists>j\<le>i. P (xs ! j)"
proof (induction xs arbitrary: i)
  case Nil
  then show ?case by simp
next
  case (Cons x xs)
  show ?case
  proof (cases "P x")
    case True
    then have "P ((x # xs) ! 0)" by simp
    then show ?thesis by blast
  next
    case False
    with Cons.prems obtain k where k: "i = Suc k"
      by (cases i) (auto split: if_splits)
    with Cons.prems False have "precedes P Q xs" "k < length xs" "Q (xs ! k)"
      by (auto split: if_splits)
    from Cons.IH [OF this] obtain j where "j \<le> k" "P (xs ! j)" by blast
    then have "Suc j \<le> i" "P ((x # xs) ! Suc j)" using k by simp_all
    then show ?thesis by blast
  qed
qed

lemma started_accepted:
  assumes "inv e f s" and "1 \<le> master_rank (master_pc s)"
  shows "accepted e f"
proof -
  from assms have k: "10 \<le> main_rank (main_pc s)"
    by (cases "main_rank (main_pc s) \<le> 9") (simp_all add: inv_def inv_sync_def Let_def)
  from assms(1) have "inv_locals e f s" by (simp add: inv_def)
  with k show ?thesis
    by (auto simp: inv_locals_def accepted_def Let_def)
qed

lemma raft_started:
  assumes "inv e f s" and "1 \<le> raft_rank (raft_pc s)"
  shows "5 \<le> master_rank (master_pc s)"
  using assms
  by (cases "master_rank (master_pc s) \<le> 4") (simp_all add: inv_def inv_sync_def Let_def)

lemma volume_started:
  assumes "inv e f s" and "10 \<le> main_rank (main_pc s)"
  shows "1 \<le> master_rank (master_pc s)"
  using assms by (simp add: inv_def inv_sync_def Let_def)

lemma master_event:
  assumes "NewMasterServer a \<in> set (trace (runServer e sched f))"
  shows "a = master_args_of f \<and> accepted e f"
proof -
  let ?s = "runServer e sched f"
  have i: "inv e f ?s" by (rule inv_runServer)
  then have "inv_ev_master f ?s" by (simp add: inv_def)
  with assms have "3 \<le> master_rank (master_pc ?s)" "a = master_args_of f"
    by (simp_all add: inv_ev_master_def)
  with i show ?thesis by (simp add: started_accepted)
qed

lemma raft_event:
  assumes "NewRaftServer a \<in> set (trace (runServer e sched f))"
  shows "a = raft_args_of f \<and> accepted e f \<and> peers (runServer e sched f) = peers_of f"
proof -
  let ?s = "runServer e sched f"
  have i: "inv e f ?s" by (rule inv_runServer)
  then have "inv_ev_raft f ?s" "inv_peers f ?s" by (simp_all add: inv_def)
  with assms have r: "5 \<le> raft_rank (raft_pc ?s)" "a = raft_args_of f" "peers ?s = peers_of f"
    by (simp_all add: inv_ev_raft_def inv_peers_def)
  from i r(1) have "5 \<le> master_rank (master_pc ?s)" by (simp add: raft_started)
  with i r show ?thesis by (simp add: started_accepted)
qed

lemma volume_event:
  assumes "NewVolumeServer a \<in> set (trace (runServer e sched f))"
  shows "a = volume_args_of f \<and> accepted e f"
proof -
  let ?s = "runServer e sched f"
  have i: "inv e f ?s" by (rule inv_runServer)
  then have "inv_ev_volume f ?s" by (simp add: inv_def)
  with assms have r: "14 \<le> main_rank (main_pc ?s)" "a = volume_args_of f"
    by (simp_all add: inv_ev_volume_def)
  from r(1) have "10 \<le> main_rank (main_pc ?s)" by simp
  with i have "1 \<le> master_rank (master_pc ?s)" by (rule volume_started)
  with i r show ?thesis by (simp add: started_accepted)
qed

lemma listen_event:
  assumes "NewListener masterListener a t \<in> set (trace (runServer e sched f))"
  shows "a = ipPort (serverIp f) (masterPort f) \<and> t = Seconds (serverTimeout f)"
  using assms inv_runServer [of e f sched] by (simp add: inv_def inv_ev_listen_def)

lemma serve_event:
  assumes "Serve masterListener r \<in> set (trace (runServer e sched f))"
  shows "r = MuxRouter"
  using assms inv_runServer [of e f sched] by (simp add: inv_def inv_ev_serve_def)

lemma is_NewMasterServer_iff: "is_NewMasterServer ev \<longleftrightarrow> (\<exists>a. ev = NewMasterServer a)"
  by (cases ev) simp_all

lemma is_NewRaftServer_iff: "is_NewRaftServer ev \<longleftrightarrow> (\<exists>a. ev = NewRaftServer a)"
  by (cases ev) simp_all

lemma is_NewVolumeServer_iff: "is_NewVolumeServer ev \<longleftrightarrow> (\<exists>a. ev = NewVolumeServer a)"
  by (cases ev) simp_all

subsection \<open>Runs of the chosen schedules\<close>

lemma setup_run:
  assumes "accepted e f"
  shows "exec e setup_sched (init f) =
     \<lparr> fl = effective e f, serverWhiteList = whiteList_of f,
       folders = Split (volumeDataFolders f) CHR '','',
       maxCountStrings = Split (volumeMaxDataVolumeCounts f) CHR '','',
       maxCounts = map (\<lambda>m. fst (Atoi m)) (Split (volumeMaxDataVolumeCounts f) CHR '',''),
       peers = [], raftWaitForMaster = 1, volumeWait = 1,
       main_pc = M_volumeWait, master_pc = G_newRouter, raft_pc = R_notStarted,
       trace = [GOMAXPROCS (serverMaxCpu (setMaxCpu e f))], exited = None \<rparr>"
  using assms
  by (simp add: setup_sched_def accepted_def init_def step_defs parseMaxCounts_ok
        checkFolders_ok effective_def whiteList_of_def cong: run_congs)

lemma race_run:
  assumes "accepted e f" and "listenError e Master (ipPort (serverIp f) (masterPort f)) = None"
  shows "exec e race_sched (init f) =
     \<lparr> fl = effective e f, serverWhiteList = whiteList_of f,
       folders = Split (volumeDataFolders f) CHR '','',
       maxCountStrings = Split (volumeMaxDataVolumeCounts f) CHR '','',
       maxCounts = map (\<lambda>m. fst (Atoi m)) (Split (volumeMaxDataVolumeCounts f) CHR '',''),
       peers = peers_of f, raftWaitForMaster = 0, volumeWait = 1,
       main_pc = M_volumeWait, master_pc = G_serve, raft_pc = R_setRaftServer,
       trace =
         [GOMAXPROCS (serverMaxCpu (setMaxCpu e f)), NewRouter,
          NewMasterServer (master_args_of f),
          NewListener masterListener (ipPort (serverIp f) (masterPort f)) (Seconds (serverTimeout f)),
          Sleep 100, NewRaftServer (raft_args_of f)],
       exited = None \<rparr>"
  using assms(2)
  by (simp add: race_sched_def exec_append setup_run [OF assms(1)] step_defs
        master_args_of_def raft_args_of_def peers_of_def cong: run_congs)

lemma config_prefix:
  assumes "\<not> accepted e f"
  shows "\<exists>x. exited (exec e [Main, Main, Main, Main, Main, Main] (init f)) = Some x \<and>
           is_config_fatal x"
proof (cases "parseMaxCounts (Split (volumeMaxDataVolumeCounts f) CHR '','') []")
  case (Inl x)
  have "\<exists>n. x = Fatal_MaxNotNumber n"
  proof (rule ccontr)
    assume n: "\<nexists>n. x = Fatal_MaxNotNumber n"
    have "\<not> (\<exists>m \<in> set (Split (volumeMaxDataVolumeCounts f) CHR '',''). snd (Atoi m) \<noteq> None)"
    proof
      assume "\<exists>m \<in> set (Split (volumeMaxDataVolumeCounts f) CHR '',''). snd (Atoi m) \<noteq> None"
      from parseMaxCounts_Inl [OF this, of "[]"] Inl n show False by simp
    qed
    then have "\<forall>m \<in> set (Split (volumeMaxDataVolumeCounts f) CHR '',''). snd (Atoi m) = None"
      by simp
    from parseMaxCounts_ok [OF this, of "[]"] Inl show False by simp
  qed
  then obtain n where "x = Fatal_MaxNotNumber n" ..
  with Inl show ?thesis
    by (simp add: init_def step_defs exec_exited cong: run_congs)
next
  case (Inr counts)
  from parseMaxCounts_Inr [OF this]
  have c: "counts = map (\<lambda>m. fst (Atoi m)) (Split (volumeMaxDataVolumeCounts f) CHR '','')"
    "\<forall>m \<in> set (Split (volumeMaxDataVolumeCounts f) CHR '',''). snd (Atoi m) = None"
    by simp_all
  show ?thesis
  proof (cases "checkFolders e (Split (volumeDataFolders f) CHR '','')")
    case None
    with assms c(2) have
      "\<not> folderWritable e (masterMetaFolder (setMetaFolder f)) \<or>
       length (Split (volumeDataFolders f) CHR '','') \<noteq> length counts"
      by (auto simp: accepted_def checkFolders_None c(1))
    with Inr None show ?thesis
      by (auto simp: init_def step_defs exec_exited cong: run_congs)
  next
    case (Some x)
    from checkFolders_Some [OF this] have "is_config_fatal x" by auto
    with Inr Some show ?thesis
      by (auto simp: init_def step_defs exec_exited cong: run_congs)
  qed
qed

lemma meta_fatal:
  assumes "\<not> folderWritable e (masterMetaFolder (setMetaFolder f))"
  shows "exec e (Main # Main # sched) (init f) =
     (init f)\<lparr>fl := setMetaFolder (setMaxCpu e f),
              trace := [GOMAXPROCS (serverMaxCpu (setMaxCpu e f))],
              main_pc := M_metaFolder,
              exited := Some (Fatal_MetaFolder (masterMetaFolder (setMetaFolder f)))\<rparr>"
  using assms
  by (simp add: init_def step_defs exec_exited cong: run_congs)

subsection \<open>Runs on the concrete inputs\<close>

lemmas input_defs =
  env0_def flags0_def flags1_def flags2_def flags3_def full_sched_def setup_sched_def

lemma full_trace0:
  "trace (runServer env0 full_sched flags0) =
     [GOMAXPROCS 4, NewRouter,
      NewMasterServer
        \<lparr>ms_r = MuxRouter, ms_version = ''0.51'', ms_port = 9333, ms_metaFolder = ''/tmp'',
         ms_volumeSizeLimitMB = 30000, ms_pulseSeconds = 5,
         ms_confFile = ''/etc/weedfs/weedfs.conf'', ms_defaultReplicaPlacement = ''000'',
         ms_garbageThreshold = ''0.3'', ms_whiteList = []\<rparr>,
      NewListener masterListener ''localhost:9333'' 10000000000,
      Serve masterListener MuxRouter, Sleep 100,
      NewRaftServer
        \<lparr>rs_r = MuxRouter, rs_version = ''0.51'', rs_peers = [],
         rs_httpAddr = ''localhost:9333'', rs_dataDir = ''/tmp'', rs_topo = ms_Topo,
         rs_pulseSeconds = 5\<rparr>,
      SetRaftServer, Sleep 100, NewServeMux,
      NewVolumeServer
        \<lparr>vs_r = ServeMux, vs_version = ''0.51'', vs_ip = ''localhost'', vs_port = 8080,
         vs_publicUrl = ''localhost:8080'', vs_folders = [''/tmp''], vs_maxCounts = [7],
         vs_masterNode = ''localhost:9333'', vs_pulseSeconds = 5, vs_dataCenter = [],
         vs_rack = [], vs_whiteList = []\<rparr>,
      NewListener volumeListener ''localhost:8080'' 10000000000,
      Serve volumeListener ServeMux]"
  by (simp add: run_simps input_defs cong: run_congs)

lemma full_trace1:
  "trace (runServer env0 full_sched flags1) =
     [GOMAXPROCS 4, NewRouter,
      NewMasterServer
        \<lparr>ms_r = MuxRouter, ms_version = ''0.51'', ms_port = 9333, ms_metaFolder = ''/tmp'',
         ms_volumeSizeLimitMB = 30000, ms_pulseSeconds = 5,
         ms_confFile = ''/etc/weedfs/weedfs.conf'', ms_defaultReplicaPlacement = ''000'',
         ms_garbageThreshold = ''0.3'', ms_whiteList = [''10.0.0.1'', ''10.0.0.2'']\<rparr>,
      NewListener masterListener ''localhost:9333'' 10000000000,
      Serve masterListener MuxRouter, Sleep 100,
      NewRaftServer
        \<lparr>rs_r = MuxRouter, rs_version = ''0.51'', rs_peers = [''m1:9333'', ''m2:9333''],
         rs_httpAddr = ''localhost:9333'', rs_dataDir = ''/tmp'', rs_topo = ms_Topo,
         rs_pulseSeconds = 5\<rparr>,
      SetRaftServer, Sleep 100, NewServeMux,
      NewVolumeServer
        \<lparr>vs_r = ServeMux, vs_version = ''0.51'', vs_ip = ''localhost'', vs_port = 8080,
         vs_publicUrl = ''localhost:8080'', vs_folders = [''/tmp'', ''/data''],
         vs_maxCounts = [7, 9], vs_masterNode = ''localhost:9333'', vs_pulseSeconds = 5,
         vs_dataCenter = [], vs_rack = [], vs_whiteList = [''10.0.0.1'', ''10.0.0.2'']\<rparr>,
      NewListener volumeListener ''localhost:8080'' 10000000000,
      Serve volumeListener ServeMux]"
  by (simp add: run_simps input_defs cong: run_congs)

lemma accepted0: "accepted env0 flags0"
  by (simp add: accepted_def input_defs default_flags_def setMetaFolder_def Atoi_def
        ParseUint_def digit_val_def IntSize_def maxUint64_def)

lemma accepted1: "accepted env0 flags1"
  by (simp add: accepted_def input_defs default_flags_def setMetaFolder_def Atoi_def
        ParseUint_def digit_val_def IntSize_def maxUint64_def)

section \<open>The claims\<close>

text \<open>
  C1. On startup via \<open>runServer\<close>, the master's HTTP endpoint is started before the
  consensus (raft) module is initialized, and the consensus module knows its full peer
  set and is attached to the master server before the local volume server is constructed.

  The code orders less than ``the endpoint is reachable before raft is initialized'': the
  master goroutine calls \<open>raftWaitForMaster.Done()\<close> (line 132) before \<open>http.Serve\<close>
  (line 133), which does not return, and the raft goroutine waits for that \<open>Done()\<close> and
  then 100 ms. The statement that holds in every run, under every schedule, is this one.
  Once \<open>NewRaftServer\<close> has been called: \<open>NewMasterServer\<close> has been called before it,
  the master listener has been opened by \<open>util.NewListener\<close> before it, and the master
  goroutine has called \<open>raftWaitForMaster.Done()\<close>, so that \<open>http.Serve\<close> on the master
  listener is the statement it is about to execute or is executing. No \<open>NewVolumeServer\<close>
  call comes before the \<open>NewRaftServer\<close> call, nor before \<open>ms.SetRaftServer\<close>, and once
  \<open>NewVolumeServer\<close> has been called the raft goroutine has finished. The peers given to
  \<open>NewRaftServer\<close> are the whole list of the \<open>-peers\<close> flag. Whether \<open>http.Serve\<close> has
  been called when \<open>NewRaftServer\<close> is called is left open: a run given below has the
  two calls in the other order.
\<close>

theorem C1_startup_order_amended:
  "precedes is_NewMasterServer is_NewRaftServer (trace (runServer e sched f)) \<and>
   precedes is_masterListen is_NewRaftServer (trace (runServer e sched f)) \<and>
   (\<forall>a. NewRaftServer a \<in> set (trace (runServer e sched f)) \<longrightarrow>
        raftWaitForMaster (runServer e sched f) = 0 \<and>
        (master_pc (runServer e sched f) = G_serve \<or>
         master_pc (runServer e sched f) = G_serving)) \<and>
   precedes is_NewRaftServer is_NewVolumeServer (trace (runServer e sched f)) \<and>
   precedes (\<lambda>ev. ev = SetRaftServer) is_NewVolumeServer (trace (runServer e sched f)) \<and>
   (\<forall>b. NewVolumeServer b \<in> set (trace (runServer e sched f)) \<longrightarrow>
        raft_pc (runServer e sched f) = R_finished) \<and>
   (\<forall>a. NewRaftServer a \<in> set (trace (runServer e sched f)) \<longrightarrow>
        rs_peers a = (if serverPeers f = [] then [] else Split (serverPeers f) CHR '',''))"
proof -
  let ?s = "runServer e sched f"
  have i: "inv e f ?s"
    by (rule inv_runServer)
  then have ord: "inv_order ?s" and sync: "inv_sync ?s"
    and evr: "inv_ev_raft f ?s" and evv: "inv_ev_volume f ?s"
    by (simp_all add: inv_def)
  have master: "raftWaitForMaster ?s = 0 \<and> (master_pc ?s = G_serve \<or> master_pc ?s = G_serving)"
    if "NewRaftServer a \<in> set (trace ?s)" for a
  proof -
    from that evr have r: "5 \<le> raft_rank (raft_pc ?s)"
      by (simp add: inv_ev_raft_def)
    with sync have g: "6 \<le> master_rank (master_pc ?s)"
      by (simp add: inv_sync_def Let_def)
    with sync have "9 \<le> main_rank (main_pc ?s)"
      by (simp add: inv_sync_def Let_def)
    with sync g have "raftWaitForMaster ?s = 0"
      by (simp add: inv_sync_def Let_def)
    moreover from g have "master_pc ?s = G_serve \<or> master_pc ?s = G_serving"
      by (cases "master_pc ?s") simp_all
    ultimately show ?thesis by simp
  qed
  have raft: "raft_pc ?s = R_finished" if "NewVolumeServer b \<in> set (trace ?s)" for b
  proof -
    from that evv have "14 \<le> main_rank (main_pc ?s)"
      by (simp add: inv_ev_volume_def)
    with sync have "raft_rank (raft_pc ?s) = 7"
      by (simp add: inv_sync_def Let_def)
    then show ?thesis
      by (cases "raft_pc ?s") simp_all
  qed
  have peers: "rs_peers a = (if serverPeers f = [] then [] else Split (serverPeers f) CHR '','')"
    if "NewRaftServer a \<in> set (trace ?s)" for a
    using raft_event [OF that] by (simp add: raft_args_of_def peers_of_def)
  from ord master raft peers show ?thesis
    unfolding inv_order_def by blast
qed

text \<open>
  The amended statement at a concrete run: the flags \<open>flags1\<close> (two peers) on \<open>env0\<close>,
  every thread run to its end by \<open>full_sched\<close>.
\<close>

theorem C1_startup_order_amended_witness:
  "precedes is_NewMasterServer is_NewRaftServer (trace (runServer env0 full_sched flags1)) \<and>
   precedes is_masterListen is_NewRaftServer (trace (runServer env0 full_sched flags1)) \<and>
   precedes is_NewRaftServer is_NewVolumeServer (trace (runServer env0 full_sched flags1)) \<and>
   (\<exists>a. NewRaftServer a \<in> set (trace (runServer env0 full_sched flags1)) \<and>
        rs_peers a = [''m1:9333'', ''m2:9333'']) \<and>
   raftWaitForMaster (runServer env0 full_sched flags1) = 0 \<and>
   (master_pc (runServer env0 full_sched flags1) = G_serve \<or>
    master_pc (runServer env0 full_sched flags1) = G_serving) \<and>
   (\<exists>b. NewVolumeServer b \<in> set (trace (runServer env0 full_sched flags1))) \<and>
   raft_pc (runServer env0 full_sched flags1) = R_finished"
proof -
  have f: "serverPeers flags1 \<noteq> []"
    "Split (serverPeers flags1) CHR '','' = [''m1:9333'', ''m2:9333'']"
    by (simp_all add: input_defs default_flags_def)
  have ev: "\<exists>a. NewRaftServer a \<in> set (trace (runServer env0 full_sched flags1))"
    "\<exists>b. NewVolumeServer b \<in> set (trace (runServer env0 full_sched flags1))"
    by (simp_all add: full_trace1)
  note t = C1_startup_order_amended [where f = flags1 and e = env0 and sched = full_sched]
  from t ev(1) f
  have "\<exists>a. NewRaftServer a \<in> set (trace (runServer env0 full_sched flags1)) \<and>
        rs_peers a = [''m1:9333'', ''m2:9333'']"
    by (metis (no_types, lifting))
  with t ev show ?thesis by blast
qed

text \<open>
  The claim as it is worded, with ``started'' and ``reachable'' read as: \<open>http.Serve\<close> has
  been called on the master listener, fails on the following run. The flags are \<open>flags1\<close>
  on \<open>env0\<close>; the schedule \<open>race_sched\<close> runs the caller to \<open>volumeWait.Wait()\<close>, the
  master goroutine up to and including \<open>raftWaitForMaster.Done()\<close> (line 132), and the
  raft goroutine through its wait, its sleep and \<open>NewRaftServer\<close> (line 127); only then
  does the master goroutine take its next step, the call of \<open>http.Serve\<close> (line 133).
  The trace has \<open>NewRaftServer\<close> before \<open>Serve masterListener\<close>.
\<close>

theorem C1_serve_before_raft_counterexample:
  "trace (runServer env0 (race_sched @ [Master]) flags1) =
     [GOMAXPROCS 4, NewRouter,
      NewMasterServer
        \<lparr>ms_r = MuxRouter, ms_version = ''0.51'', ms_port = 9333, ms_metaFolder = ''/tmp'',
         ms_volumeSizeLimitMB = 30000, ms_pulseSeconds = 5,
         ms_confFile = ''/etc/weedfs/weedfs.conf'', ms_defaultReplicaPlacement = ''000'',
         ms_garbageThreshold = ''0.3'', ms_whiteList = [''10.0.0.1'', ''10.0.0.2'']\<rparr>,
      NewListener masterListener ''localhost:9333'' 10000000000,
      Sleep 100,
      NewRaftServer
        \<lparr>rs_r = MuxRouter, rs_version = ''0.51'', rs_peers = [''m1:9333'', ''m2:9333''],
         rs_httpAddr = ''localhost:9333'', rs_dataDir = ''/tmp'', rs_topo = ms_Topo,
         rs_pulseSeconds = 5\<rparr>,
      Serve masterListener MuxRouter] \<and>
   \<not> precedes is_masterServe is_NewRaftServer
        (trace (runServer env0 (race_sched @ [Master]) flags1))"
proof -
  have t: "trace (runServer env0 (race_sched @ [Master]) flags1) =
     [GOMAXPROCS 4, NewRouter,
      NewMasterServer
        \<lparr>ms_r = MuxRouter, ms_version = ''0.51'', ms_port = 9333, ms_metaFolder = ''/tmp'',
         ms_volumeSizeLimitMB = 30000, ms_pulseSeconds = 5,
         ms_confFile = ''/etc/weedfs/weedfs.conf'', ms_defaultReplicaPlacement = ''000'',
         ms_garbageThreshold = ''0.3'', ms_whiteList = [''10.0.0.1'', ''10.0.0.2'']\<rparr>,
      NewListener masterListener ''localhost:9333'' 10000000000,
      Sleep 100,
      NewRaftServer
        \<lparr>rs_r = MuxRouter, rs_version = ''0.51'', rs_peers = [''m1:9333'', ''m2:9333''],
         rs_httpAddr = ''localhost:9333'', rs_dataDir = ''/tmp'', rs_topo = ms_Topo,
         rs_pulseSeconds = 5\<rparr>,
      Serve masterListener MuxRouter]"
    by (simp add: run_simps input_defs race_sched_def cong: run_congs)
  show ?thesis
    unfolding t by simp
qed

text \<open>
  C2. For every startup configuration in which the number of comma-separated folders
  given by \<open>-dir\<close> differs from the number of counts given by \<open>-max\<close>, or some entry of
  \<open>-max\<close> is not a valid integer, or some data folder or the metadata folder is not
  writable, \<open>runServer\<close> terminates the process fatally before constructing the master
  server, the consensus module, or the volume server: after six steps of the caller the
  process has exited with one of the fatal errors of lines 70, 80, 84 and 88, whatever is
  scheduled afterwards, and under no schedule does the trace contain a call of
  \<open>NewMasterServer\<close>, \<open>NewRaftServer\<close> or \<open>NewVolumeServer\<close>.
\<close>

theorem C2_config_errors_fatal:
  assumes "length (Split (volumeDataFolders f) CHR '','') \<noteq>
             length (Split (volumeMaxDataVolumeCounts f) CHR '','') \<or>
           (\<exists>m \<in> set (Split (volumeMaxDataVolumeCounts f) CHR '',''). snd (Atoi m) \<noteq> None) \<or>
           (\<exists>d \<in> set (Split (volumeDataFolders f) CHR '',''). \<not> folderWritable e d) \<or>
           \<not> folderWritable e
               (if masterMetaFolder f = [] then volumeDataFolders f else masterMetaFolder f)"
  shows "(\<exists>x. exited (runServer e ([Main, Main, Main, Main, Main, Main] @ sched) f) = Some x \<and>
              is_config_fatal x) \<and>
         (\<forall>ev \<in> set (trace (runServer e sched' f)).
              \<not> is_NewMasterServer ev \<and> \<not> is_NewRaftServer ev \<and> \<not> is_NewVolumeServer ev)"
proof -
  from assms have bad: "\<not> accepted e f"
    by (auto simp: accepted_def setMetaFolder_def)
  from config_prefix [OF bad] obtain x where
    x: "exited (exec e [Main, Main, Main, Main, Main, Main] (init f)) = Some x"
       "is_config_fatal x"
    by blast
  then have "exited (runServer e ([Main, Main, Main, Main, Main, Main] @ sched) f) = Some x"
    by (simp only: runServer_def exec_append) (simp add: exec_exited)
  with x(2) have first: "\<exists>x. exited (runServer e ([Main, Main, Main, Main, Main, Main] @ sched) f)
      = Some x \<and> is_config_fatal x"
    by blast
  have "\<not> is_NewMasterServer ev \<and> \<not> is_NewRaftServer ev \<and> \<not> is_NewVolumeServer ev"
    if "ev \<in> set (trace (runServer e sched' f))" for ev
    using that bad
    by (auto simp: is_NewMasterServer_iff is_NewRaftServer_iff is_NewVolumeServer_iff
          dest!: master_event raft_event volume_event)
  with first show ?thesis by blast
qed

theorem C2_config_errors_fatal_witness:
  "length (Split (volumeDataFolders flags3) CHR '','') \<noteq>
     length (Split (volumeMaxDataVolumeCounts flags3) CHR '','') \<and>
   (\<exists>x. exited (runServer env0 ([Main, Main, Main, Main, Main, Main] @ full_sched) flags3)
          = Some x \<and> is_config_fatal x) \<and>
   exited (runServer env0 [Main, Main, Main, Main, Main, Main] flags3)
     = Some (Fatal_DirMaxMismatch 2 1) \<and>
   trace (runServer env0 full_sched flags3) = [GOMAXPROCS 4]"
proof -
  have bad: "length (Split (volumeDataFolders flags3) CHR '','') \<noteq>
     length (Split (volumeMaxDataVolumeCounts flags3) CHR '','')"
    by (simp add: input_defs default_flags_def)
  have run: "exited (runServer env0 [Main, Main, Main, Main, Main, Main] flags3)
     = Some (Fatal_DirMaxMismatch 2 1)"
    "trace (runServer env0 full_sched flags3) = [GOMAXPROCS 4]"
    by (simp_all add: run_simps input_defs cong: run_congs)
  from C2_config_errors_fatal [where f = flags3 and e = env0 and sched = full_sched] bad
  have "\<exists>x. exited (runServer env0 ([Main, Main, Main, Main, Main, Main] @ full_sched) flags3)
          = Some x \<and> is_config_fatal x"
    by blast
  with bad run show ?thesis by simp
qed

text \<open>
  C3. In the bootstrap path, the handoffs from endpoint startup to consensus
  initialization and from consensus initialization to volume-server startup are
  synchronized only by wait-group signals followed by fixed 100-millisecond sleeps;
  consequently there exists a scheduling in which the raft server is constructed before
  the master HTTP listener is actually serving. The two waits move exactly when their
  counter is zero and the two sleeps are unconditional steps of 100 milliseconds; and for
  every accepted configuration whose master address can be listened on, the schedule
  \<open>race_sched\<close> is a run in which \<open>NewRaftServer\<close> has been called, only a sleep lies
  between the opening of the master listener and that call, and the master goroutine has
  not yet called \<open>http.Serve\<close>: its next step makes that call, after the raft server's
  construction.
\<close>

theorem C3_race:
  assumes "accepted e f" and "listenError e Master (ipPort (serverIp f) (masterPort f)) = None"
  shows "(\<exists>n a b.
            trace (runServer e race_sched f) =
              [GOMAXPROCS n, NewRouter, NewMasterServer a,
               NewListener masterListener (ipPort (serverIp f) (masterPort f)) (Seconds (serverTimeout f)),
               Sleep 100, NewRaftServer b]) \<and>
         master_pc (runServer e race_sched f) = G_serve \<and>
         trace (runServer e (race_sched @ [Master]) f) =
           trace (runServer e race_sched f) @ [Serve masterListener MuxRouter] \<and>
         \<not> precedes is_masterServe is_NewRaftServer
             (trace (runServer e (race_sched @ [Master]) f)) \<and>
         (\<forall>s. exited s = None \<and> raft_pc s = R_wait \<longrightarrow>
              step e Raft s =
                (if raftWaitForMaster s = 0 then Some (s\<lparr>raft_pc := R_sleep\<rparr>) else None)) \<and>
         (\<forall>s. exited s = None \<and> raft_pc s = R_sleep \<longrightarrow>
              step e Raft s = Some (emit (Sleep 100) (s\<lparr>raft_pc := R_peers\<rparr>))) \<and>
         (\<forall>s. exited s = None \<and> main_pc s = M_volumeWait \<longrightarrow>
              step e Main s =
                (if volumeWait s = 0 then Some (s\<lparr>main_pc := M_sleep\<rparr>) else None)) \<and>
         (\<forall>s. exited s = None \<and> main_pc s = M_sleep \<longrightarrow>
              step e Main s = Some (emit (Sleep 100) (s\<lparr>main_pc := M_newServeMux\<rparr>)))"
proof -
  note r = race_run [OF assms]
  have t: "trace (runServer e race_sched f) =
      [GOMAXPROCS (serverMaxCpu (setMaxCpu e f)), NewRouter, NewMasterServer (master_args_of f),
       NewListener masterListener (ipPort (serverIp f) (masterPort f)) (Seconds (serverTimeout f)),
       Sleep 100, NewRaftServer (raft_args_of f)]"
    and pc: "master_pc (runServer e race_sched f) = G_serve"
    by (simp_all add: runServer_def r)
  have nxt: "trace (runServer e (race_sched @ [Master]) f) =
      trace (runServer e race_sched f) @ [Serve masterListener MuxRouter]"
    by (simp add: runServer_def exec_append r step_defs cong: run_congs)
  have "\<not> precedes is_masterServe is_NewRaftServer
      (trace (runServer e (race_sched @ [Master]) f))"
    by (simp add: nxt t)
  moreover have "\<exists>n a b. trace (runServer e race_sched f) =
              [GOMAXPROCS n, NewRouter, NewMasterServer a,
               NewListener masterListener (ipPort (serverIp f) (masterPort f)) (Seconds (serverTimeout f)),
               Sleep 100, NewRaftServer b]"
    using t by blast
  moreover have "\<forall>s. exited s = None \<and> raft_pc s = R_wait \<longrightarrow>
      step e Raft s =
        (if raftWaitForMaster s = 0 then Some (s\<lparr>raft_pc := R_sleep\<rparr>) else None)"
    "\<forall>s. exited s = None \<and> raft_pc s = R_sleep \<longrightarrow>
      step e Raft s = Some (emit (Sleep 100) (s\<lparr>raft_pc := R_peers\<rparr>))"
    "\<forall>s. exited s = None \<and> main_pc s = M_volumeWait \<longrightarrow>
      step e Main s =
        (if volumeWait s = 0 then Some (s\<lparr>main_pc := M_sleep\<rparr>) else None)"
    "\<forall>s. exited s = None \<and> main_pc s = M_sleep \<longrightarrow>
      step e Main s = Some (emit (Sleep 100) (s\<lparr>main_pc := M_newServeMux\<rparr>))"
    by (simp_all add: step_def raft_step_def main_step_def)
  ultimately show ?thesis using pc nxt by blast
qed

theorem C3_race_witness:
  "accepted env0 flags1 \<and>
   listenError env0 Master (ipPort (serverIp flags1) (masterPort flags1)) = None \<and>
   master_pc (runServer env0 race_sched flags1) = G_serve \<and>
   (\<exists>b. NewRaftServer b \<in> set (trace (runServer env0 race_sched flags1))) \<and>
   Serve masterListener MuxRouter \<notin> set (trace (runServer env0 race_sched flags1)) \<and>
   \<not> precedes is_masterServe is_NewRaftServer
       (trace (runServer env0 (race_sched @ [Master]) flags1))"
proof -
  have l: "listenError env0 Master (ipPort (serverIp flags1) (masterPort flags1)) = None"
    by (simp add: env0_def)
  from C3_race [OF accepted1 l] accepted1 l show ?thesis
    by auto
qed







text \<open>
  C7. The consensus peer set is read once at startup from the \<open>-peers\<close> flag (split on
  commas; an empty flag yields an empty peer list) and is not changed afterwards, and the
  raft server is registered on the same HTTP router and the same \<open>ip:masterPort\<close>
  address as the master server. In every run: \<open>NewRaftServer\<close> is called at most once;
  its peers are the flag split on commas, or the empty list for the empty flag, and the
  variable \<open>peers\<close> still holds that list in every later state; its router is the router
  given to \<open>NewMasterServer\<close> and served by \<open>http.Serve\<close> on the master listener; its
  address is the address the master listener was opened on, with the port given to
  \<open>NewMasterServer\<close>.
\<close>

theorem C7_peers_and_endpoint:
  "length (filter is_NewRaftServer (trace (runServer e sched f))) \<le> 1 \<and>
   (\<forall>a. NewRaftServer a \<in> set (trace (runServer e sched f)) \<longrightarrow>
        rs_peers a = (if serverPeers f = [] then [] else Split (serverPeers f) CHR '','') \<and>
        peers (runServer e sched f) = rs_peers a \<and>
        rs_r a = MuxRouter \<and>
        rs_httpAddr a = serverIp f @ '':'' @ Itoa (masterPort f)) \<and>
   (\<forall>a. NewMasterServer a \<in> set (trace (runServer e sched f)) \<longrightarrow>
        ms_r a = MuxRouter \<and> ms_port a = masterPort f) \<and>
   (\<forall>addr t. NewListener masterListener addr t \<in> set (trace (runServer e sched f)) \<longrightarrow>
        addr = serverIp f @ '':'' @ Itoa (masterPort f)) \<and>
   (\<forall>r. Serve masterListener r \<in> set (trace (runServer e sched f)) \<longrightarrow> r = MuxRouter)"
proof -
  have "inv_count (runServer e sched f)"
    using inv_runServer [of e f sched] by (simp add: inv_def)
  then have "length (filter is_NewRaftServer (trace (runServer e sched f))) \<le> 1"
    by (simp add: inv_count_def)
  then show ?thesis
    by (auto simp: raft_args_of_def master_args_of_def peers_of_def ipPort_def
          dest!: raft_event master_event listen_event serve_event)
qed

theorem C7_peers_and_endpoint_witness:
  "(\<exists>a. NewRaftServer a \<in> set (trace (runServer env0 full_sched flags1)) \<and>
        rs_peers a = [''m1:9333'', ''m2:9333''] \<and> rs_r a = MuxRouter \<and>
        rs_httpAddr a = ''localhost:9333'') \<and>
   (\<exists>a. NewMasterServer a \<in> set (trace (runServer env0 full_sched flags1)) \<and>
        ms_r a = MuxRouter \<and> ms_port a = 9333) \<and>
   NewListener masterListener ''localhost:9333'' 10000000000
     \<in> set (trace (runServer env0 full_sched flags1)) \<and>
   Serve masterListener MuxRouter \<in> set (trace (runServer env0 full_sched flags1)) \<and>
   (\<exists>a. NewRaftServer a \<in> set (trace (runServer env0 full_sched flags0)) \<and> rs_peers a = [])"
proof -
  have f: "serverPeers flags1 \<noteq> []"
    "Split (serverPeers flags1) CHR '','' = [''m1:9333'', ''m2:9333'']"
    "serverIp flags1 @ '':'' @ Itoa (masterPort flags1) = ''localhost:9333''"
    "masterPort flags1 = 9333" "serverPeers flags0 = []"
    by (simp_all add: input_defs default_flags_def Itoa_def nat_digits_numeral digit_char_def)
  have ev: "\<exists>a. NewRaftServer a \<in> set (trace (runServer env0 full_sched flags1))"
    "\<exists>a. NewMasterServer a \<in> set (trace (runServer env0 full_sched flags1))"
    "NewListener masterListener ''localhost:9333'' 10000000000
       \<in> set (trace (runServer env0 full_sched flags1))"
    "Serve masterListener MuxRouter \<in> set (trace (runServer env0 full_sched flags1))"
    by (simp_all add: full_trace1)
  have ev0: "\<exists>a. NewRaftServer a \<in> set (trace (runServer env0 full_sched flags0))"
    by (simp add: full_trace0)
  from C7_peers_and_endpoint [where f = flags1 and e = env0 and sched = full_sched] ev f
  have "(\<exists>a. NewRaftServer a \<in> set (trace (runServer env0 full_sched flags1)) \<and>
        rs_peers a = [''m1:9333'', ''m2:9333''] \<and> rs_r a = MuxRouter \<and>
        rs_httpAddr a = ''localhost:9333'')"
    "(\<exists>a. NewMasterServer a \<in> set (trace (runServer env0 full_sched flags1)) \<and>
        ms_r a = MuxRouter \<and> ms_port a = 9333)"
    by (metis (no_types, lifting))+
  moreover from C7_peers_and_endpoint [where f = flags0 and e = env0 and sched = full_sched] ev0 f(5)
  have "\<exists>a. NewRaftServer a \<in> set (trace (runServer env0 full_sched flags0)) \<and> rs_peers a = []"
    by (metis (no_types, lifting))
  ultimately show ?thesis using ev by simp
qed

text \<open>
  C8. When \<open>-mdir\<close> is unspecified (empty), the master's metadata folder defaults to the
  entire value of the \<open>-dir\<close> flag, also when \<open>-dir\<close> lists several comma-separated
  folders: that whole string is what \<open>NewMasterServer\<close> receives, it has passed
  \<open>util.TestFolderWritable\<close> as a single path whenever the master server is constructed,
  and when it is not writable the second step of the caller ends the process with the
  fatal error of line 70.
\<close>

theorem C8_meta_folder_default:
  assumes "masterMetaFolder f = []"
  shows "(\<forall>a. NewMasterServer a \<in> set (trace (runServer e sched f)) \<longrightarrow>
             ms_metaFolder a = volumeDataFolders f \<and> folderWritable e (volumeDataFolders f)) \<and>
         (\<not> folderWritable e (volumeDataFolders f) \<longrightarrow>
             exited (runServer e (Main # Main # sched) f) =
               Some (Fatal_MetaFolder (volumeDataFolders f)))"
proof -
  from assms have m: "masterMetaFolder (setMetaFolder f) = volumeDataFolders f"
    by (simp add: setMetaFolder_def)
  have "ms_metaFolder a = volumeDataFolders f \<and> folderWritable e (volumeDataFolders f)"
    if "NewMasterServer a \<in> set (trace (runServer e sched f))" for a
    using master_event [OF that] m by (simp add: master_args_of_def accepted_def)
  moreover have "exited (runServer e (Main # Main # sched) f) =
      Some (Fatal_MetaFolder (volumeDataFolders f))"
    if "\<not> folderWritable e (volumeDataFolders f)"
    using that m meta_fatal [of e f sched] by (simp add: runServer_def)
  ultimately show ?thesis by blast
qed

theorem C8_meta_folder_default_witness:
  "masterMetaFolder flags2 = [] \<and> volumeDataFolders flags2 = ''/tmp,/data'' \<and>
   \<not> folderWritable env0 ''/tmp,/data'' \<and>
   exited (runServer env0 [Main, Main] flags2) = Some (Fatal_MetaFolder ''/tmp,/data'') \<and>
   masterMetaFolder flags0 = [] \<and>
   (\<exists>a. NewMasterServer a \<in> set (trace (runServer env0 full_sched flags0)) \<and>
        ms_metaFolder a = ''/tmp'')"
proof -
  have f2: "masterMetaFolder flags2 = []" "volumeDataFolders flags2 = ''/tmp,/data''"
    "\<not> folderWritable env0 ''/tmp,/data''"
    and f0: "masterMetaFolder flags0 = []" "volumeDataFolders flags0 = ''/tmp''"
    by (simp_all add: input_defs default_flags_def)
  have m0: "\<exists>a. NewMasterServer a \<in> set (trace (runServer env0 full_sched flags0))"
    by (simp add: full_trace0)
  from C8_meta_folder_default [OF f2(1), where e = env0 and sched = "[]"] f2
  have "exited (runServer env0 [Main, Main] flags2) = Some (Fatal_MetaFolder ''/tmp,/data'')"
    by simp
  moreover from C8_meta_folder_default [OF f0(1), where e = env0 and sched = full_sched] m0 f0
  have "\<exists>a. NewMasterServer a \<in> set (trace (runServer env0 full_sched flags0)) \<and>
        ms_metaFolder a = ''/tmp''"
    by auto
  ultimately show ?thesis using f2 f0 by simp
qed



text \<open>
  C10. For every \<open>-maxCpu\<close> value less than 1 (including the default 0), \<open>runServer\<close>
  sets GOMAXPROCS to the number of available CPUs; for every value of at least 1, it sets
  GOMAXPROCS to exactly that value. In every run in which the caller has moved at all, the
  calls of \<open>runtime.GOMAXPROCS\<close> made are exactly the one with that argument.
\<close>

theorem C10_gomaxprocs:
  assumes "Main \<in> set sched"
  shows "GOMAXPROCS n \<in> set (trace (runServer e sched f)) \<longleftrightarrow>
           n = (if serverMaxCpu f < 1 then NumCPU e else serverMaxCpu f)"
proof -
  have "inv_ev_gomaxprocs e f (runServer e sched f)"
    using inv_runServer [of e f sched] by (simp add: inv_def)
  moreover have "1 \<le> main_rank (main_pc (runServer e sched f))"
    unfolding runServer_def using assms by (rule main_moves)
  ultimately show ?thesis
    by (simp add: inv_ev_gomaxprocs_def setMaxCpu_def)
qed

theorem C10_gomaxprocs_witness:
  "Main \<in> set [Main] \<and> GOMAXPROCS 4 \<in> set (trace (runServer env0 [Main] flags0)) \<and>
   GOMAXPROCS 0 \<notin> set (trace (runServer env0 [Main] flags0)) \<and>
   GOMAXPROCS 2 \<in> set (trace (runServer env0 [Main] (flags0\<lparr>serverMaxCpu := 2\<rparr>)))"
  using C10_gomaxprocs [of "[Main]" 4 env0 flags0]
    C10_gomaxprocs [of "[Main]" 0 env0 flags0]
    C10_gomaxprocs [of "[Main]" 2 env0 "flags0\<lparr>serverMaxCpu := 2\<rparr>"]
  by (simp add: env0_def flags0_def default_flags_def)

end
